theory Spec2Isabelle
  imports Main
begin

section \<open>JavaScript values\<close>

text \<open>
  Request bodies, database parameters and the replies of the collaborating servers are
  JSON. A JSON number is modelled by an integer (fractions are outside the model); an
  object lists its own properties, each name once. \<open>JUndefined\<close> is what reading an absent
  property yields.
\<close>

datatype jsval =
    JUndefined
  | JNull
  | JBool bool
  | JNum int
  | JStr string
  | JArr "jsval list"
  | JObj "(string \<times> jsval) list"

text \<open>What a JavaScript \<open>throw\<close> or a rejected promise carries.\<close>

datatype error =
    TypeError
  | DbUnavailable
  | DbRejected
  | HttpStatus nat
  | Unreachable
  | InvalidResponse

text \<open>
  \<open>v.k\<close>: reading a property of \<open>null\<close> or \<open>undefined\<close> throws a TypeError; a primitive or
  an array has none of the properties the handlers read (\<open>x\<close>, \<open>y\<close>, \<open>address\<close>, \<open>score\<close>,
  \<open>reports\<close>), so the read yields \<open>undefined\<close>.
\<close>

fun js_get :: "jsval \<Rightarrow> string \<Rightarrow> error + jsval" where
  "js_get JUndefined k = Inl TypeError"
| "js_get JNull k = Inl TypeError"
| "js_get (JObj kvs) k = Inr (case map_of kvs k of None \<Rightarrow> JUndefined | Some v \<Rightarrow> v)"
| "js_get v k = Inr JUndefined"

text \<open>\<open>!v\<close> is \<open>\<not> truthy v\<close>.\<close>

fun truthy :: "jsval \<Rightarrow> bool" where
  "truthy JUndefined = False"
| "truthy JNull = False"
| "truthy (JBool b) = b"
| "truthy (JNum n) = (n \<noteq> 0)"
| "truthy (JStr s) = (s \<noteq> [])"
| "truthy (JArr vs) = True"
| "truthy (JObj kvs) = True"

fun isArray :: "jsval \<Rightarrow> bool" where
  "isArray (JArr vs) = True"
| "isArray v = False"

fun elements :: "jsval \<Rightarrow> jsval list" where
  "elements (JArr vs) = vs"
| "elements v = []"

section \<open>The database\<close>

text \<open>
  The tables of \<open>migrations/database_schema.sql\<close>, with the columns the handlers read or
  write. \<open>ad_columns\<close> holds the remaining columns of an address row as node-postgres
  returns them.
\<close>

record snapshot_row =
  sn_id :: int
  sn_name :: string

record node_row =
  nd_node_id :: int
  nd_x :: int
  nd_y :: int
  nd_address :: string
  nd_snapshot_id :: "int option"

record security_row =
  sc_address :: string
  sc_score :: int
  sc_reports :: jsval

record address_row =
  ad_address :: string
  ad_contract_name :: "string option"
  ad_protocol_id :: "int option"
  ad_columns :: "(string \<times> jsval) list"

record protocol_row =
  pr_protocol_id :: int
  pr_protocol_name :: string
  pr_protocol_symbol :: "string option"
  pr_protocol_type :: "string option"

record trace_row =
  tr_from_addr :: string
  tr_to_addr :: string
  tr_storage_addr :: string
  tr_action :: string

record tables =
  snapshots :: "snapshot_row list"
  snapshot_nodes :: "node_row list"
  security_check :: "security_row list"
  addresses :: "address_row list"
  protocols :: "protocol_row list"
  traces :: "trace_row list"

text \<open>
  PostgreSQL itself is outside the repository. What its input functions make of a
  parameter that is not covered by the rules below is a parameter of the model:
  \<open>int4_in\<close> and \<open>varchar_in n\<close> give the value stored in an \<open>INTEGER\<close> and a
  \<open>VARCHAR(n)\<close> column (\<open>None\<close>: the statement is rejected), \<open>jsonb_in\<close> gives what a
  \<open>JSONB\<close> column returns for \<open>JSON.stringify\<close> of a value, and \<open>text_of\<close> is the text
  node-postgres sends for a parameter.
\<close>

record pg =
  int4_in :: "jsval \<Rightarrow> int option"
  varchar_in :: "nat \<Rightarrow> jsval \<Rightarrow> string option"
  jsonb_in :: "jsval \<Rightarrow> jsval option"
  text_of :: "jsval \<Rightarrow> string"

text \<open>
  Every written column is \<open>NOT NULL\<close>, and node-postgres sends \<open>null\<close> and \<open>undefined\<close>
  as \<open>NULL\<close>. A number within the 32-bit range is stored in an \<open>INTEGER\<close> column as it
  is, one outside is rejected. A string of plain ASCII characters within the length limit
  is stored in a \<open>VARCHAR\<close> column as it is.
\<close>

definition int4 :: "pg \<Rightarrow> jsval \<Rightarrow> int option" where
  "int4 c v =
     (case v of
        JUndefined \<Rightarrow> None
      | JNull \<Rightarrow> None
      | JNum n \<Rightarrow> if - 2147483648 \<le> n \<and> n \<le> 2147483647 then Some n else None
      | _ \<Rightarrow> int4_in c v)"

definition ascii_text :: "string \<Rightarrow> bool" where
  "ascii_text s = list_all (\<lambda>ch. 0 < (of_char ch :: nat) \<and> (of_char ch :: nat) < 128) s"

definition varchar :: "pg \<Rightarrow> nat \<Rightarrow> jsval \<Rightarrow> string option" where
  "varchar c n v =
     (case v of
        JUndefined \<Rightarrow> None
      | JNull \<Rightarrow> None
      | JStr s \<Rightarrow> if ascii_text s \<and> length s \<le> n then Some s else varchar_in c n v
      | _ \<Rightarrow> varchar_in c n v)"

definition jsonb :: "pg \<Rightarrow> jsval \<Rightarrow> jsval option" where
  "jsonb c v = (case v of JUndefined \<Rightarrow> None | _ \<Rightarrow> jsonb_in c v)"

definition param_text :: "pg \<Rightarrow> jsval \<Rightarrow> string" where
  "param_text c v = (case v of JStr s \<Rightarrow> s | _ \<Rightarrow> text_of c v)"

text \<open>
  The statements the handlers send, and the requests they make to other servers. Both are
  recorded in the order they are issued.
\<close>

datatype statement =
    BEGIN
  | COMMIT
  | ROLLBACK
  | SelectSnapshotId
  | DeleteSnapshotNodes
  | DeleteSnapshot
  | InsertSnapshot
  | InsertSnapshotNode
  | SelectSnapshotNodes
  | SelectNormalCalls
  | SelectDelegateCalls
  | SelectSecurityCheck
  | InsertSecurityCheck
  | SelectAddressesAny
  | SelectAddressJoinProtocol
  | SelectAddressesJoinProtocolIn

datatype endpoint =
    TraceAddress string
  | TraceBlock string
  | MetadataAddress string
  | SecurityServer

datatype event = Query statement | Http endpoint

text \<open>
  The state a request runs against: the committed and uncommitted rows seen by the
  connection (\<open>db\<close>), the rows as they were at \<open>BEGIN\<close> while a transaction is open
  (\<open>tx\<close>), the two \<open>SERIAL\<close> sequences (which a rollback does not reset), whether the
  server can be reached, and the record of statements and requests issued so far.
  Requests are handled one at a time, so every \<open>pool.query\<close> of a request runs on the
  same pooled connection.
\<close>

record world =
  db :: tables
  tx :: "tables option"
  snapshots_id_seq :: int
  snapshot_nodes_node_id_seq :: int
  db_up :: bool
  log :: "event list"

type_synonym 'a io = "world \<Rightarrow> (error + 'a) \<times> world"

text \<open>\<open>const v = await m; k v\<close>: a rejected promise skips the rest.\<close>

definition await :: "'a io \<Rightarrow> ('a \<Rightarrow> 'b io) \<Rightarrow> 'b io" where
  "await m k w = (case m w of (Inl e, w') \<Rightarrow> (Inl e, w') | (Inr v, w') \<Rightarrow> k v w')"

definition return :: "'a \<Rightarrow> 'a io" where
  "return v w = (Inr v, w)"

definition throw :: "error \<Rightarrow> 'a io" where
  "throw e w = (Inl e, w)"

text \<open>
  \<open>pool.query\<close>: the statement is recorded; it is rejected when the server cannot be
  reached, and otherwise runs on the rows.
\<close>

definition pool_query :: "statement \<Rightarrow> 'a io \<Rightarrow> 'a io" where
  "pool_query st run w =
     (let w1 = w\<lparr>log := log w @ [Query st]\<rparr>
      in if db_up w then run w1 else (Inl DbUnavailable, w1))"

definition begin_tx :: "unit io" where
  "begin_tx w = (Inr (), case tx w of None \<Rightarrow> w\<lparr>tx := Some (db w)\<rparr> | Some d \<Rightarrow> w)"

definition commit_tx :: "unit io" where
  "commit_tx w = (Inr (), w\<lparr>tx := None\<rparr>)"

definition rollback_tx :: "unit io" where
  "rollback_tx w = (Inr (), case tx w of None \<Rightarrow> w | Some d \<Rightarrow> w\<lparr>db := d, tx := None\<rparr>)"

text \<open>\<open>SELECT id FROM snapshots WHERE name = $1\<close>\<close>

definition snapshot_ids :: "tables \<Rightarrow> string \<Rightarrow> int list" where
  "snapshot_ids d nm = map sn_id (filter (\<lambda>r. sn_name r = nm) (snapshots d))"

definition select_snapshot_id :: "string \<Rightarrow> int list io" where
  "select_snapshot_id nm w = (Inr (snapshot_ids (db w) nm), w)"

text \<open>\<open>DELETE FROM snapshot_nodes WHERE snapshot_id = $1\<close>\<close>

definition delete_snapshot_nodes :: "int \<Rightarrow> unit io" where
  "delete_snapshot_nodes sid w =
     (Inr (), w\<lparr>db := (db w)\<lparr>snapshot_nodes :=
        filter (\<lambda>n. nd_snapshot_id n \<noteq> Some sid) (snapshot_nodes (db w))\<rparr>\<rparr>)"

text \<open>
  \<open>DELETE FROM snapshots WHERE id = $1\<close>; \<open>snapshot_nodes.snapshot_id\<close> is declared
  \<open>ON DELETE CASCADE\<close>.
\<close>

definition delete_snapshot :: "int \<Rightarrow> unit io" where
  "delete_snapshot sid w =
     (Inr (), w\<lparr>db := (db w)\<lparr>
        snapshots := filter (\<lambda>r. sn_id r \<noteq> sid) (snapshots (db w)),
        snapshot_nodes := filter (\<lambda>n. nd_snapshot_id n \<noteq> Some sid) (snapshot_nodes (db w))\<rparr>\<rparr>)"

text \<open>
  \<open>INSERT INTO snapshots (name) VALUES ($1) RETURNING id\<close>: the id is the next value of
  the sequence; the row is rejected when the name is, or when the id is already taken.
\<close>

definition insert_snapshot :: "pg \<Rightarrow> jsval \<Rightarrow> int io" where
  "insert_snapshot c nm w =
     (let i = snapshots_id_seq w; w1 = w\<lparr>snapshots_id_seq := i + 1\<rparr>
      in case varchar c 255 nm of
           None \<Rightarrow> (Inl DbRejected, w1)
         | Some s \<Rightarrow>
             if i \<in> set (map sn_id (snapshots (db w))) then (Inl DbRejected, w1)
             else (Inr i, w1\<lparr>db := (db w)\<lparr>snapshots :=
                     snapshots (db w) @ [\<lparr>sn_id = i, sn_name = s\<rparr>]\<rparr>\<rparr>))"

text \<open>
  An integer parameter that is not \<open>NULL\<close> and that the server cannot read is refused
  when the statement is bound, before the row is formed.
\<close>

definition refused_int4 :: "pg \<Rightarrow> jsval \<Rightarrow> bool" where
  "refused_int4 c v = (v \<noteq> JUndefined \<and> v \<noteq> JNull \<and> int4 c v = None)"

text \<open>
  \<open>INSERT INTO snapshot_nodes (x, y, address, snapshot_id) VALUES ($1, $2, $3, $4)\<close>:
  rejected when a value is, when the node id is already taken, or when no snapshot has
  the id referred to. A coordinate refused at binding leaves the sequence as it is; every
  other rejection comes after the node id has been drawn.
\<close>

definition insert_snapshot_node :: "pg \<Rightarrow> jsval \<Rightarrow> jsval \<Rightarrow> jsval \<Rightarrow> int \<Rightarrow> unit io" where
  "insert_snapshot_node c vx vy va sid w =
     (if refused_int4 c vx \<or> refused_int4 c vy then (Inl DbRejected, w)
      else
        let i = snapshot_nodes_node_id_seq w; w1 = w\<lparr>snapshot_nodes_node_id_seq := i + 1\<rparr>
        in case (int4 c vx, int4 c vy, varchar c 42 va) of
             (Some px, Some py, Some pa) \<Rightarrow>
               if i \<in> set (map nd_node_id (snapshot_nodes (db w)))
                  \<or> sid \<notin> set (map sn_id (snapshots (db w)))
               then (Inl DbRejected, w1)
               else (Inr (), w1\<lparr>db := (db w)\<lparr>snapshot_nodes := snapshot_nodes (db w) @
                       [\<lparr>nd_node_id = i, nd_x = px, nd_y = py, nd_address = pa,
                         nd_snapshot_id = Some sid\<rparr>]\<rparr>\<rparr>)
           | _ \<Rightarrow> (Inl DbRejected, w1))"

text \<open>\<open>SELECT node_id, x, y, address FROM snapshot_nodes WHERE snapshot_id = $1\<close>\<close>

definition nodes_of :: "tables \<Rightarrow> int \<Rightarrow> node_row list" where
  "nodes_of d sid = filter (\<lambda>n. nd_snapshot_id n = Some sid) (snapshot_nodes d)"

definition select_snapshot_nodes :: "int \<Rightarrow> node_row list io" where
  "select_snapshot_nodes sid w = (Inr (nodes_of (db w) sid), w)"

text \<open>
  \<open>SELECT from_addr, to_addr, action FROM traces WHERE action IN ('call', 'create',
  'create2') AND from_addr = ANY($1) AND to_addr = ANY($1) GROUP BY from_addr, to_addr,
  action\<close>: one row for each group, without any aggregate.
\<close>

definition normal_calls :: "tables \<Rightarrow> string list \<Rightarrow> (string \<times> string \<times> string) list" where
  "normal_calls d addrs =
     remdups (map (\<lambda>t. (tr_from_addr t, tr_to_addr t, tr_action t))
        (filter (\<lambda>t. tr_action t \<in> set [''call'', ''create'', ''create2'']
                    \<and> tr_from_addr t \<in> set addrs \<and> tr_to_addr t \<in> set addrs)
           (traces d)))"

definition select_normal_calls :: "string list \<Rightarrow> (string \<times> string \<times> string) list io" where
  "select_normal_calls addrs w = (Inr (normal_calls (db w) addrs), w)"

text \<open>
  \<open>SELECT storage_addr, to_addr, action FROM traces WHERE action IN ('delegate_call') AND
  storage_addr = ANY($1) AND to_addr = ANY($1) GROUP BY storage_addr, to_addr, action\<close>
\<close>

definition delegate_calls :: "tables \<Rightarrow> string list \<Rightarrow> (string \<times> string \<times> string) list" where
  "delegate_calls d addrs =
     remdups (map (\<lambda>t. (tr_storage_addr t, tr_to_addr t, tr_action t))
        (filter (\<lambda>t. tr_action t \<in> set [''delegate_call'']
                    \<and> tr_storage_addr t \<in> set addrs \<and> tr_to_addr t \<in> set addrs)
           (traces d)))"

definition select_delegate_calls :: "string list \<Rightarrow> (string \<times> string \<times> string) list io" where
  "select_delegate_calls addrs w = (Inr (delegate_calls (db w) addrs), w)"

section \<open>Responses\<close>

text \<open>
  What a handler sends: \<open>res.json(v)\<close>, \<open>res.status(n).json({error: text})\<close>,
  \<open>res.status(500).json({error: error.message})\<close>,
  \<open>res.status(500).json({error: text, details: error.message})\<close>, or nothing at all
  when the handler's promise is rejected before it answers.
\<close>

datatype 'a response =
    Json 'a
  | Status nat string
  | Error500 error
  | Details500 string error
  | NoResponse

definition of_result :: "error + 'a \<Rightarrow> 'a io" where
  "of_result r w = (r, w)"

section \<open>POST /api/addresses/snapshot\<close>

definition node_properties :: "jsval \<Rightarrow> error + jsval \<times> jsval \<times> jsval" where
  "node_properties node =
     (case js_get node ''x'' of Inl e \<Rightarrow> Inl e | Inr vx \<Rightarrow>
       (case js_get node ''y'' of Inl e \<Rightarrow> Inl e | Inr vy \<Rightarrow>
         (case js_get node ''address'' of Inl e \<Rightarrow> Inl e | Inr va \<Rightarrow> Inr (vx, vy, va))))"

text \<open>
  The loop over \<open>snapshot_nodes\<close>. \<open>Some r\<close>: the handler has rolled back and answered
  \<open>r\<close> from inside the loop; \<open>None\<close>: every node was inserted.
\<close>

fun insert_nodes :: "pg \<Rightarrow> int \<Rightarrow> jsval list \<Rightarrow> world \<Rightarrow> (error + jsval response option) \<times> world" where
  "insert_nodes c snapshotId [] w = (Inr None, w)"
| "insert_nodes c snapshotId (node # rest) w =
     (case node_properties node of
        Inl e \<Rightarrow> (Inl e, w)
      | Inr (vx, vy, va) \<Rightarrow>
          if vx = JUndefined \<or> vy = JUndefined \<or> va = JUndefined then
            await (pool_query ROLLBACK rollback_tx)
              (\<lambda>_. return (Some (Status 400 ''Each node must have x, y, and address properties''))) w
          else
            (case pool_query InsertSnapshotNode (insert_snapshot_node c vx vy va snapshotId) w of
               (Inl e, w') \<Rightarrow> (Inl e, w')
             | (Inr u, w') \<Rightarrow> insert_nodes c snapshotId rest w'))"

definition saved_json :: "int \<Rightarrow> jsval" where
  "saved_json snapshotId =
     JObj [(''success'', JBool True),
       (''message'', JStr ''Snapshot created/updated successfully''),
       (''snapshot_id'', JNum snapshotId)]"

text \<open>The body of the handler's \<open>try\<close>.\<close>

definition save_try :: "pg \<Rightarrow> jsval \<Rightarrow> jsval list \<Rightarrow> jsval response io" where
  "save_try c snapshot_name nodes =
     await (pool_query BEGIN begin_tx) (\<lambda>_.
     await (pool_query SelectSnapshotId (select_snapshot_id (param_text c snapshot_name)))
       (\<lambda>existingSnapshot.
     await (if existingSnapshot \<noteq> [] then
              await (pool_query DeleteSnapshotNodes (delete_snapshot_nodes (hd existingSnapshot)))
                (\<lambda>_. pool_query DeleteSnapshot (delete_snapshot (hd existingSnapshot)))
            else return ()) (\<lambda>_.
     await (pool_query InsertSnapshot (insert_snapshot c snapshot_name)) (\<lambda>snapshotId.
     await (insert_nodes c snapshotId nodes) (\<lambda>answered.
       case answered of
         Some r \<Rightarrow> return r
       | None \<Rightarrow>
           await (pool_query COMMIT commit_tx) (\<lambda>_.
             return (Json (saved_json snapshotId))))))))"

text \<open>
  The handler: the check of the body, the \<open>try\<close>, and the \<open>catch\<close> that rolls back and
  answers 500. A rollback that is itself rejected leaves the request unanswered.
\<close>

definition save_snapshot :: "pg \<Rightarrow> jsval \<Rightarrow> jsval \<Rightarrow> world \<Rightarrow> jsval response \<times> world" where
  "save_snapshot c snapshot_name nodes w =
     (if \<not> truthy snapshot_name \<or> \<not> isArray nodes then
        (Status 400 ''Invalid request body. snapshot_name and snapshot_nodes array are required'', w)
      else
        case save_try c snapshot_name (elements nodes) w of
          (Inr r, w') \<Rightarrow> (r, w')
        | (Inl e, w') \<Rightarrow>
            (case pool_query ROLLBACK rollback_tx w' of
               (Inl e', w'') \<Rightarrow> (NoResponse, w'')
             | (Inr u, w'') \<Rightarrow> (Error500 e, w'')))"

section \<open>GET /api/snapshot/:snapshotName\<close>

definition node_json :: "node_row \<Rightarrow> jsval" where
  "node_json r = JObj [(''node_id'', JNum (nd_node_id r)), (''x'', JNum (nd_x r)),
     (''y'', JNum (nd_y r)), (''address'', JStr (nd_address r))]"

definition normal_edge :: "string \<times> string \<times> string \<Rightarrow> jsval" where
  "normal_edge t = (case t of (f, to, a) \<Rightarrow>
     JObj [(''from_addr'', JStr f), (''to_addr'', JStr to), (''action'', JStr a)])"

definition delegate_edge :: "string \<times> string \<times> string \<Rightarrow> jsval" where
  "delegate_edge t = (case t of (s, to, a) \<Rightarrow>
     JObj [(''storage_addr'', JStr s), (''to_addr'', JStr to), (''action'', JStr a)])"

definition snapshot_json :: "string \<Rightarrow> int \<Rightarrow> jsval list \<Rightarrow> jsval list \<Rightarrow> jsval" where
  "snapshot_json snapshotName snapshotId ns ts =
     JObj [(''snapshot_name'', JStr snapshotName), (''snapshot_id'', JNum snapshotId),
       (''nodes'', JArr ns), (''traces'', JArr ts)]"

definition read_try :: "string \<Rightarrow> jsval response io" where
  "read_try snapshotName =
     await (pool_query SelectSnapshotId (select_snapshot_id snapshotName)) (\<lambda>snapshotResult.
       if snapshotResult = [] then return (Status 404 ''Snapshot not found'')
       else
         await (pool_query SelectSnapshotNodes (select_snapshot_nodes (hd snapshotResult)))
           (\<lambda>nodesResult.
           if map nd_address nodesResult = [] then
             return (Json (snapshot_json snapshotName (hd snapshotResult) [] []))
           else
             await (pool_query SelectNormalCalls (select_normal_calls (map nd_address nodesResult)))
               (\<lambda>normalCallsResult.
             await (pool_query SelectDelegateCalls
                      (select_delegate_calls (map nd_address nodesResult)))
               (\<lambda>delegateCallsResult.
                 return (Json (snapshot_json snapshotName (hd snapshotResult)
                   (map node_json nodesResult)
                   (map normal_edge normalCallsResult @ map delegate_edge delegateCallsResult)))))))"

definition read_snapshot :: "string \<Rightarrow> world \<Rightarrow> jsval response \<times> world" where
  "read_snapshot snapshotName w =
     (case read_try snapshotName w of
        (Inr r, w') \<Rightarrow> (r, w')
      | (Inl e, w') \<Rightarrow> (Error500 e, w'))"

section \<open>The collaborating servers\<close>

text \<open>
  The logic server and the security server are outside the repository: what they answer
  is a parameter (\<open>Inl\<close>: the request fails or is answered outside 2xx, so axios
  rejects). The logic server answers with a list of trace rows; a row carries the three
  address fields as strings, the empty string being the falsy one. With rows of this
  type nothing in the trace handler throws outside its inner \<open>try\<close> blocks, so its outer
  \<open>catch\<close> has no counterpart here.
\<close>

record services =
  trace_address :: "string \<Rightarrow> error + trace_row list"
  trace_block :: "string \<Rightarrow> error + trace_row list"
  security_server :: "jsval \<Rightarrow> error + jsval"

definition http :: "endpoint \<Rightarrow> error + 'a \<Rightarrow> 'a io" where
  "http ep r w = (r, w\<lparr>log := log w @ [Http ep]\<rparr>)"

section \<open>GET /api/trace\<close>

text \<open>\<open>uniqueAddresses.add(a)\<close> on a \<open>Set\<close>, which keeps the order of first insertion.\<close>

definition set_add :: "string \<Rightarrow> string list \<Rightarrow> string list" where
  "set_add a s = (if a \<in> set s then s else s @ [a])"

definition add_trace :: "trace_row \<Rightarrow> string list \<Rightarrow> string list" where
  "add_trace trace s =
     (let s1 = (if tr_from_addr trace \<noteq> [] then set_add (tr_from_addr trace) s else s);
          s2 = (if tr_to_addr trace \<noteq> [] then set_add (tr_to_addr trace) s1 else s1)
      in if tr_storage_addr trace \<noteq> [] then set_add (tr_storage_addr trace) s2 else s2)"

definition unique_addresses :: "trace_row list \<Rightarrow> string list" where
  "unique_addresses ts = fold add_trace ts []"

text \<open>\<open>SELECT address, contract_name, protocol_id FROM addresses WHERE address = ANY($1)\<close>\<close>

definition addresses_any :: "tables \<Rightarrow> string list \<Rightarrow> address_row list" where
  "addresses_any d addressList = filter (\<lambda>r. ad_address r \<in> set addressList) (addresses d)"

definition select_addresses_any :: "string list \<Rightarrow> address_row list io" where
  "select_addresses_any addressList w = (Inr (addresses_any (db w) addressList), w)"

record metadata_entry =
  contract_name :: "string option"

text \<open>
  \<open>metadata\<close> is a plain object, created as \<open>{}\<close> and used as a dictionary from
  addresses to entries. It has its own properties (the ones \<open>res.json\<close> sends) and a
  prototype: \<open>Object.prototype\<close> to begin with, or an entry once one has been assigned to
  \<open>metadata['__proto__']\<close>, which sets the prototype instead of creating a property.
\<close>

record metadata_object =
  own :: "string \<rightharpoonup> metadata_entry"
  proto :: "metadata_entry option"

definition empty_object :: metadata_object where
  "empty_object = \<lparr>own = Map.empty, proto = None\<rparr>"

text \<open>The names of the properties of \<open>Object.prototype\<close>.\<close>

definition inherited_names :: "string list" where
  "inherited_names =
     [''constructor'', ''__defineGetter__'', ''__defineSetter__'', ''hasOwnProperty'',
      ''__lookupGetter__'', ''__lookupSetter__'', ''isPrototypeOf'', ''propertyIsEnumerable'',
      ''toString'', ''valueOf'', ''__proto__'', ''toLocaleString'']"

text \<open>
  \<open>metadata[k]\<close> is truthy through the prototype chain: \<open>k\<close> is \<open>contract_name\<close> and the
  entry that became the prototype has a non-empty one, or \<open>k\<close> names a property of
  \<open>Object.prototype\<close> (all of them functions or objects).
\<close>

definition inherits :: "metadata_object \<Rightarrow> string \<Rightarrow> bool" where
  "inherits m k =
     ((case proto m of
         None \<Rightarrow> False
       | Some e \<Rightarrow> k = ''contract_name''
           \<and> (case contract_name e of None \<Rightarrow> False | Some s \<Rightarrow> s \<noteq> []))
      \<or> k \<in> set inherited_names)"

text \<open>\<open>metadata[k]\<close> is truthy: an own property (always an entry object) or an inherited one.\<close>

definition truthy_at :: "metadata_object \<Rightarrow> string \<Rightarrow> bool" where
  "truthy_at m k = (own m k \<noteq> None \<or> inherits m k)"

text \<open>\<open>metadata[k] = e\<close>\<close>

definition object_set :: "metadata_object \<Rightarrow> string \<Rightarrow> metadata_entry \<Rightarrow> metadata_object" where
  "object_set m k e =
     (if k = ''__proto__'' then m\<lparr>proto := Some e\<rparr> else m\<lparr>own := (own m)(k \<mapsto> e)\<rparr>)"

text \<open>
  The two \<open>forEach\<close> loops that fill \<open>metadata\<close>: one entry for each row found, then one
  for each address \<open>addr\<close> with \<open>!metadata[addr]\<close>. The handler also groups the rows by
  protocol into \<open>addressesByProtocol\<close>, which it never reads.
\<close>

definition metadata_of_rows :: "address_row list \<Rightarrow> metadata_object" where
  "metadata_of_rows rows =
     fold (\<lambda>row m. object_set m (ad_address row) \<lparr>contract_name = ad_contract_name row\<rparr>)
       rows empty_object"

definition add_missing :: "string list \<Rightarrow> metadata_object \<Rightarrow> metadata_object" where
  "add_missing addressList metadata =
     fold (\<lambda>addr m. if \<not> truthy_at m addr then object_set m addr \<lparr>contract_name = None\<rparr> else m)
       addressList metadata"

type_synonym trace_reply = "trace_row list \<times> (string \<rightharpoonup> metadata_entry)"

definition enrich :: "trace_row list \<Rightarrow> world \<Rightarrow> trace_reply response \<times> world" where
  "enrich ts w =
     (let addressList = unique_addresses ts
      in if addressList \<noteq> [] then
           (case pool_query SelectAddressesAny (select_addresses_any addressList) w of
              (Inl dbError, w') \<Rightarrow> (Json (ts, Map.empty), w')
            | (Inr rows, w') \<Rightarrow>
                (Json (ts, own (add_missing addressList (metadata_of_rows rows))), w'))
         else (Json (ts, Map.empty), w))"

text \<open>\<open>if (p)\<close> for a query parameter: absent and empty are falsy.\<close>

definition given :: "string option \<Rightarrow> bool" where
  "given p = (case p of None \<Rightarrow> False | Some s \<Rightarrow> s \<noteq> [])"

definition get_trace ::
  "services \<Rightarrow> string option \<Rightarrow> string option \<Rightarrow> string option \<Rightarrow> world
    \<Rightarrow> trace_reply response \<times> world" where
  "get_trace sv address txn block w =
     (if given address then
        (case http (TraceAddress (the address)) (trace_address sv (the address)) w of
           (Inl err, w') \<Rightarrow> (Status 404 ''Address not found'', w')
         | (Inr ts, w') \<Rightarrow> enrich ts w')
      else if given txn then (Status 501 ''Transaction lookup not implemented'', w)
      else if given block then
        (case http (TraceBlock (the block)) (trace_block sv (the block)) w of
           (Inl err, w') \<Rightarrow> (Status 404 ''Block not found'', w')
         | (Inr ts, w') \<Rightarrow> enrich ts w')
      else (Status 400 ''Provide address, tx, or block in query params'', w))"

section \<open>GET /api/metadata/address/:address\<close>

definition opt_str :: "string option \<Rightarrow> jsval" where
  "opt_str s = (case s of None \<Rightarrow> JNull | Some t \<Rightarrow> JStr t)"

definition opt_num :: "int option \<Rightarrow> jsval" where
  "opt_num n = (case n of None \<Rightarrow> JNull | Some i \<Rightarrow> JNum i)"

text \<open>
  A row of \<open>SELECT a.*, p.protocol_name, p.protocol_symbol, p.protocol_type FROM
  addresses a LEFT JOIN protocols p ON a.protocol_id = p.protocol_id\<close>.
\<close>

definition joined_json :: "address_row \<Rightarrow> protocol_row option \<Rightarrow> jsval" where
  "joined_json a p =
     JObj ([(''address'', JStr (ad_address a)), (''contract_name'', opt_str (ad_contract_name a)),
            (''protocol_id'', opt_num (ad_protocol_id a))] @ ad_columns a @
           [(''protocol_name'', opt_str (map_option pr_protocol_name p)),
            (''protocol_symbol'', opt_str (Option.bind p pr_protocol_symbol)),
            (''protocol_type'', opt_str (Option.bind p pr_protocol_type))])"

definition left_join :: "tables \<Rightarrow> address_row \<Rightarrow> (string \<times> jsval) list" where
  "left_join d a =
     (case filter (\<lambda>p. Some (pr_protocol_id p) = ad_protocol_id a) (protocols d) of
        [] \<Rightarrow> [(ad_address a, joined_json a None)]
      | ps \<Rightarrow> map (\<lambda>p. (ad_address a, joined_json a (Some p))) ps)"

definition address_join :: "tables \<Rightarrow> (string \<Rightarrow> bool) \<Rightarrow> (string \<times> jsval) list" where
  "address_join d wanted =
     concat (map (left_join d) (filter (\<lambda>a. wanted (ad_address a)) (addresses d)))"

definition select_address_join :: "(string \<Rightarrow> bool) \<Rightarrow> (string \<times> jsval) list io" where
  "select_address_join wanted w = (Inr (address_join (db w) wanted), w)"

text \<open>\<open>address.split(',')\<close>\<close>

fun split_commas :: "string \<Rightarrow> string list" where
  "split_commas [] = [[]]"
| "split_commas (ch # rest) =
     (if ch = CHR '','' then [] # split_commas rest
      else (case split_commas rest of [] \<Rightarrow> [[ch]] | part # parts \<Rightarrow> (ch # part) # parts))"

text \<open>
  \<open>metadataMap[row.address] = row\<close>, on the own properties that \<open>res.json\<close> sends: the
  key \<open>__proto__\<close> sets the prototype and creates no property.
\<close>

fun obj_set :: "(string \<times> jsval) list \<Rightarrow> string \<Rightarrow> jsval \<Rightarrow> (string \<times> jsval) list" where
  "obj_set [] k v = [(k, v)]"
| "obj_set ((k', v') # kvs) k v = (if k' = k then (k, v) # kvs else (k', v') # obj_set kvs k v)"

definition set_own :: "(string \<times> jsval) list \<Rightarrow> string \<Rightarrow> jsval \<Rightarrow> (string \<times> jsval) list" where
  "set_own kvs k v = (if k = ''__proto__'' then kvs else obj_set kvs k v)"

definition get_metadata_address :: "string \<Rightarrow> world \<Rightarrow> jsval response \<times> world" where
  "get_metadata_address address w =
     (if length (split_commas address) = 1 then
        (case pool_query SelectAddressJoinProtocol (select_address_join (\<lambda>a. a = address)) w of
           (Inl e, w') \<Rightarrow> (Error500 e, w')
         | (Inr rows, w') \<Rightarrow>
             if rows = [] then (Status 404 ''Address not found'', w')
             else (Json (snd (hd rows)), w'))
      else
        (case pool_query SelectAddressesJoinProtocolIn
                (select_address_join (\<lambda>a. a \<in> set (split_commas address))) w of
           (Inl e, w') \<Rightarrow> (Error500 e, w')
         | (Inr rows, w') \<Rightarrow> (Json (JObj (fold (\<lambda>row m. set_own m (fst row) (snd row)) rows [])), w')))"

section \<open>GET /api/security/check/:address\<close>

text \<open>The character class \<open>[a-fA-F0-9]\<close> and the pattern \<open>/^0x[a-fA-F0-9]{40}$/\<close>.\<close>

definition hex_class :: "char \<Rightarrow> bool" where
  "hex_class ch =
     (let n = (of_char ch :: nat)
      in (97 \<le> n \<and> n \<le> 102) \<or> (65 \<le> n \<and> n \<le> 70) \<or> (48 \<le> n \<and> n \<le> 57))"

fun address_match :: "string \<Rightarrow> bool" where
  "address_match (a # b # rest) =
     (a = CHR ''0'' \<and> b = CHR ''x'' \<and> length rest = 40 \<and> list_all hex_class rest)"
| "address_match s = False"

text \<open>\<open>SELECT * FROM security_check WHERE address = $1\<close>\<close>

definition security_rows :: "tables \<Rightarrow> string \<Rightarrow> security_row list" where
  "security_rows d address = filter (\<lambda>r. sc_address r = address) (security_check d)"

definition select_security_check :: "string \<Rightarrow> security_row list io" where
  "select_security_check address w = (Inr (security_rows (db w) address), w)"

text \<open>
  \<open>INSERT INTO security_check (address, score, reports) VALUES ($1, $2, $3::jsonb)
  RETURNING *\<close>; \<open>address\<close> is the primary key.
\<close>

definition insert_security_check :: "pg \<Rightarrow> string \<Rightarrow> jsval \<Rightarrow> jsval \<Rightarrow> security_row io" where
  "insert_security_check c address score reports w =
     (case (varchar c 42 (JStr address), int4 c score, jsonb c reports) of
        (Some pa, Some ps, Some pr) \<Rightarrow>
          if pa \<in> set (map sc_address (security_check (db w))) then (Inl DbRejected, w)
          else (Inr \<lparr>sc_address = pa, sc_score = ps, sc_reports = pr\<rparr>,
                w\<lparr>db := (db w)\<lparr>security_check := security_check (db w) @
                  [\<lparr>sc_address = pa, sc_score = ps, sc_reports = pr\<rparr>]\<rparr>\<rparr>)
      | _ \<Rightarrow> (Inl DbRejected, w))"

text \<open>
  \<open>axios.get\<close> of this server's own metadata route: it runs the handler above, and
  rejects on an answer outside 2xx.
\<close>

definition axios_get_metadata :: "string \<Rightarrow> jsval io" where
  "axios_get_metadata address w =
     (case get_metadata_address address (w\<lparr>log := log w @ [Http (MetadataAddress address)]\<rparr>) of
        (Json v, w') \<Rightarrow> (Inr v, w')
      | (Status n msg, w') \<Rightarrow> (Inl (HttpStatus n), w')
      | (Error500 e, w') \<Rightarrow> (Inl (HttpStatus 500), w')
      | (Details500 msg e, w') \<Rightarrow> (Inl (HttpStatus 500), w')
      | (NoResponse, w') \<Rightarrow> (Inl Unreachable, w'))"

definition security_json :: "security_row \<Rightarrow> bool \<Rightarrow> jsval" where
  "security_json r cached =
     JObj [(''address'', JStr (sc_address r)), (''score'', JNum (sc_score r)),
       (''reports'', sc_reports r), (''cached'', JBool cached)]"

text \<open>The inner \<open>try\<close>: metadata, scorer, check of the scorer's answer, insert.\<close>

definition assess :: "pg \<Rightarrow> services \<Rightarrow> string \<Rightarrow> jsval response io" where
  "assess c sv address =
     await (axios_get_metadata address) (\<lambda>address_metadata.
     await (http SecurityServer (security_server sv address_metadata)) (\<lambda>data.
       if \<not> truthy data then throw InvalidResponse
       else
         await (of_result (js_get data ''score'')) (\<lambda>score.
           if \<not> truthy score then throw InvalidResponse
           else
             await (of_result (js_get data ''reports'')) (\<lambda>reports.
               if \<not> truthy reports then throw InvalidResponse
               else
                 await (pool_query InsertSecurityCheck
                          (insert_security_check c address score reports))
                   (\<lambda>row. return (Json (security_json row False)))))))"

definition security_check_address ::
  "pg \<Rightarrow> services \<Rightarrow> string \<Rightarrow> world \<Rightarrow> jsval response \<times> world" where
  "security_check_address c sv address w =
     (if address = [] \<or> \<not> address_match address then
        (Status 400 ''Invalid Ethereum address format'', w)
      else
        (case pool_query SelectSecurityCheck (select_security_check address) w of
           (Inl e, w') \<Rightarrow> (Error500 e, w')
         | (Inr existingResult, w') \<Rightarrow>
             if existingResult \<noteq> [] then (Json (security_json (hd existingResult) True), w')
             else
               (case assess c sv address w' of
                  (Inl serviceError, w'') \<Rightarrow>
                    (Details500 ''Error contacting security service'' serviceError, w'')
                | (Inr r, w'') \<Rightarrow> (r, w''))))"

section \<open>Predicates and example states used in the statements\<close>

text \<open>
  The address shape as the specification words it: the prefix \<open>0x\<close> followed by forty
  hexadecimal digits.
\<close>

definition hex_digit :: "char \<Rightarrow> bool" where
  "hex_digit ch = (ch \<in> set ''0123456789abcdefABCDEF'')"

definition well_formed_address :: "string \<Rightarrow> bool" where
  "well_formed_address s = (length s = 42 \<and> take 2 s = ''0x'' \<and> list_all hex_digit (drop 2 s))"

text \<open>A transaction is open on a reachable server, and \<open>d\<close> is what a rollback restores.\<close>

definition in_tx :: "tables \<Rightarrow> world \<Rightarrow> bool" where
  "in_tx d w = (db_up w \<and> tx w = Some d)"

text \<open>The loop's own test: one of \<open>x\<close>, \<open>y\<close>, \<open>address\<close> reads as \<open>undefined\<close>.\<close>

definition lacks_property :: "jsval \<Rightarrow> bool" where
  "lacks_property node =
     (case node_properties node of
        Inl e \<Rightarrow> False
      | Inr (vx, vy, va) \<Rightarrow> vx = JUndefined \<or> vy = JUndefined \<or> va = JUndefined)"

text \<open>
  A PostgreSQL that rejects every parameter the rules above leave open, servers that
  cannot be reached, and an empty database.
\<close>

definition pg_strict :: pg where
  "pg_strict = \<lparr>int4_in = (\<lambda>v. None), varchar_in = (\<lambda>n v. None), jsonb_in = Some,
     text_of = (\<lambda>v. [])\<rparr>"

definition no_services :: services where
  "no_services = \<lparr>trace_address = (\<lambda>a. Inl Unreachable), trace_block = (\<lambda>b. Inl Unreachable),
     security_server = (\<lambda>v. Inl Unreachable)\<rparr>"

definition no_rows :: tables where
  "no_rows = \<lparr>snapshots = [], snapshot_nodes = [], security_check = [], addresses = [],
     protocols = [], traces = []\<rparr>"

definition fresh_world :: world where
  "fresh_world = \<lparr>db = no_rows, tx = None, snapshots_id_seq = 1,
     snapshot_nodes_node_id_seq = 1, db_up = True, log = []\<rparr>"

text \<open>
  What the two edge queries of a snapshot read select from the trace ledger for the
  address set \<open>A\<close>, one object for each group.
\<close>

definition snapshot_edges :: "tables \<Rightarrow> string set \<Rightarrow> jsval set" where
  "snapshot_edges d A =
     {normal_edge (tr_from_addr t, tr_to_addr t, tr_action t) | t.
        t \<in> set (traces d) \<and> tr_action t \<in> {''call'', ''create'', ''create2''}
        \<and> tr_from_addr t \<in> A \<and> tr_to_addr t \<in> A}
   \<union> {delegate_edge (tr_storage_addr t, tr_to_addr t, tr_action t) | t.
        t \<in> set (traces d) \<and> tr_action t = ''delegate_call''
        \<and> tr_storage_addr t \<in> A \<and> tr_to_addr t \<in> A}"

text \<open>
  A database with the snapshot \<open>layout\<close> of two nodes, the snapshot \<open>blank\<close> of none,
  and a ledger of three traces: the same call from \<open>0xA\<close> to \<open>0xB\<close> twice, and a delegate
  call to \<open>0xB\<close> on the storage of \<open>0xA\<close>.
\<close>

definition ledger_rows :: tables where
  "ledger_rows = \<lparr>
     snapshots = [\<lparr>sn_id = 1, sn_name = ''layout''\<rparr>, \<lparr>sn_id = 2, sn_name = ''blank''\<rparr>],
     snapshot_nodes =
       [\<lparr>nd_node_id = 1, nd_x = 10, nd_y = 20, nd_address = ''0xA'', nd_snapshot_id = Some 1\<rparr>,
        \<lparr>nd_node_id = 2, nd_x = 30, nd_y = 40, nd_address = ''0xB'', nd_snapshot_id = Some 1\<rparr>],
     security_check = [], addresses = [], protocols = [],
     traces =
       [\<lparr>tr_from_addr = ''0xA'', tr_to_addr = ''0xB'', tr_storage_addr = ''0xA'',
          tr_action = ''call''\<rparr>,
        \<lparr>tr_from_addr = ''0xA'', tr_to_addr = ''0xB'', tr_storage_addr = ''0xA'',
          tr_action = ''call''\<rparr>,
        \<lparr>tr_from_addr = ''0xC'', tr_to_addr = ''0xB'', tr_storage_addr = ''0xA'',
          tr_action = ''delegate_call''\<rparr>]\<rparr>"

definition ledger_world :: world where
  "ledger_world = \<lparr>db = ledger_rows, tx = None, snapshots_id_seq = 3,
     snapshot_nodes_node_id_seq = 3, db_up = True, log = []\<rparr>"


text \<open>
  Two addresses, of which only the first has a row in \<open>addresses\<close>; a logic server that
  answers with one call between them; a security server that answers with a score and a
  report.
\<close>

definition addr_X :: string where
  "addr_X = ''0x00000000000000000000000000000000000000aF''"

definition addr_Y :: string where
  "addr_Y = ''0x00000000000000000000000000000000000000b0''"

definition example_traces :: "trace_row list" where
  "example_traces = [\<lparr>tr_from_addr = addr_X, tr_to_addr = addr_Y, tr_storage_addr = addr_X,
     tr_action = ''call''\<rparr>]"

definition example_services :: services where
  "example_services = \<lparr>trace_address = (\<lambda>a. Inr example_traces),
     trace_block = (\<lambda>b. Inr example_traces),
     security_server = (\<lambda>v. Inr (JObj [(''score'', JNum 85),
       (''reports'', JObj [(''summary'', JStr ''ok'')])]))\<rparr>"

definition address_rows :: tables where
  "address_rows = no_rows\<lparr>addresses := [\<lparr>ad_address = addr_X, ad_contract_name = Some ''Token'',
     ad_protocol_id = None, ad_columns = []\<rparr>]\<rparr>"

definition address_world :: world where
  "address_world = fresh_world\<lparr>db := address_rows\<rparr>"



text \<open>
  What the server's own metadata route answers for a single address: the first joined
  row, if there is one.
\<close>

definition own_metadata :: "tables \<Rightarrow> string \<Rightarrow> jsval option" where
  "own_metadata d a = (case address_join d (\<lambda>x. x = a) of [] \<Rightarrow> None | row # rows \<Rightarrow> Some (snd row))"

definition service_message :: string where
  "service_message = ''Error contacting security service''"

text \<open>A security server whose answer has the score 0.\<close>

definition zero_score_services :: services where
  "zero_score_services = example_services\<lparr>security_server :=
     (\<lambda>v. Inr (JObj [(''score'', JNum 0), (''reports'', JObj [(''summary'', JStr ''ok'')])]))\<rparr>"

text \<open>A security server whose answer has no score.\<close>

definition no_score_services :: services where
  "no_score_services = example_services\<lparr>security_server :=
     (\<lambda>v. Inr (JObj [(''reports'', JObj [(''summary'', JStr ''ok'')])]))\<rparr>"

text \<open>
  The rows left once the handler has deleted the snapshot it found under a name (the
  first row of the lookup) together with the nodes that refer to it.
\<close>

definition without_existing :: "string \<Rightarrow> tables \<Rightarrow> tables" where
  "without_existing key d =
     (case snapshot_ids d key of
        [] \<Rightarrow> d
      | sid # others \<Rightarrow>
          d\<lparr>snapshots := filter (\<lambda>r. sn_id r \<noteq> sid) (snapshots d),
            snapshot_nodes := filter (\<lambda>n. nd_snapshot_id n \<noteq> Some sid) (snapshot_nodes d)\<rparr>)"

text \<open>What the database stores for a node of the request, if it accepts it.\<close>

definition node_values :: "pg \<Rightarrow> jsval \<Rightarrow> (int \<times> int \<times> string) option" where
  "node_values c node =
     (case node_properties node of
        Inl e \<Rightarrow> None
      | Inr (vx, vy, va) \<Rightarrow>
          (case (int4 c vx, int4 c vy, varchar c 42 va) of
             (Some px, Some py, Some pa) \<Rightarrow> Some (px, py, pa)
           | _ \<Rightarrow> None))"

definition stored_values :: "node_row \<Rightarrow> (int \<times> int \<times> string) option" where
  "stored_values n = Some (nd_x n, nd_y n, nd_address n)"

text \<open>The node rows that belong to a snapshot carrying the name.\<close>

definition nodes_under :: "tables \<Rightarrow> string \<Rightarrow> node_row list" where
  "nodes_under d key =
     filter (\<lambda>n. nd_snapshot_id n \<in> Some ` set (snapshot_ids d key)) (snapshot_nodes d)"

text \<open>
  The foreign key of \<open>snapshot_nodes.snapshot_id\<close>: a node refers to no snapshot or to
  one that exists.
\<close>

definition references_ok :: "tables \<Rightarrow> bool" where
  "references_ok d =
     list_all (\<lambda>n. case nd_snapshot_id n of None \<Rightarrow> True
                   | Some sid \<Rightarrow> sid \<in> set (map sn_id (snapshots d))) (snapshot_nodes d)"

text \<open>Both sequences are ahead of every id in their table.\<close>

definition sequences_ahead :: "world \<Rightarrow> bool" where
  "sequences_ahead w =
     (list_all (\<lambda>r. sn_id r < snapshots_id_seq w) (snapshots (db w))
      \<and> list_all (\<lambda>n. nd_node_id n < snapshot_nodes_node_id_seq w) (snapshot_nodes (db w)))"

text \<open>
  Every node before the first one that lacks a property is accepted by the database,
  and there is such a first one.
\<close>

fun accepted_until_lacking :: "pg \<Rightarrow> jsval list \<Rightarrow> bool" where
  "accepted_until_lacking c [] = False"
| "accepted_until_lacking c (node # rest) =
     (if lacks_property node then True
      else node_values c node \<noteq> None \<and> accepted_until_lacking c rest)"

text \<open>
  Nodes of a request: one with all three properties, one whose \<open>x\<close> is \<open>null\<close>, one
  without \<open>x\<close>, and another with all three.
\<close>

definition full_node :: jsval where
  "full_node = JObj [(''x'', JNum 5), (''y'', JNum 6), (''address'', JStr ''0xC'')]"

definition null_x_node :: jsval where
  "null_x_node = JObj [(''x'', JNull), (''y'', JNum 1), (''address'', JStr ''0xA'')]"

definition no_x_node :: jsval where
  "no_x_node = JObj [(''y'', JNum 1), (''address'', JStr ''0xB'')]"

definition other_node :: jsval where
  "other_node = JObj [(''x'', JNum 7), (''y'', JNum 8), (''address'', JStr ''0xD'')]"

text \<open>The state the \<open>try\<close> of the save handler reaches before it inserts the new snapshot.\<close>

definition after_delete :: "pg \<Rightarrow> jsval \<Rightarrow> world \<Rightarrow> world" where
  "after_delete c nm w =
     w\<lparr>db := without_existing (param_text c nm) (db w), tx := Some (db w),
       log := log w @ [Query BEGIN, Query SelectSnapshotId]
         @ (if snapshot_ids (db w) (param_text c nm) = [] then []
            else [Query DeleteSnapshotNodes, Query DeleteSnapshot])\<rparr>"

text \<open>
  \<open>ledger_world\<close> after the snapshot \<open>layout\<close> has been saved with \<open>full_node\<close>, and
  after it has then been saved with \<open>other_node\<close>.
\<close>

definition saved_once :: world where
  "saved_once = ledger_world\<lparr>db := ledger_rows\<lparr>
       snapshots := [\<lparr>sn_id = 2, sn_name = ''blank''\<rparr>, \<lparr>sn_id = 3, sn_name = ''layout''\<rparr>],
       snapshot_nodes := [\<lparr>nd_node_id = 3, nd_x = 5, nd_y = 6, nd_address = ''0xC'',
          nd_snapshot_id = Some 3\<rparr>]\<rparr>,
     snapshots_id_seq := 4, snapshot_nodes_node_id_seq := 4,
     log := [Query BEGIN, Query SelectSnapshotId, Query DeleteSnapshotNodes,
       Query DeleteSnapshot, Query InsertSnapshot, Query InsertSnapshotNode, Query COMMIT]\<rparr>"

definition saved_twice :: world where
  "saved_twice = ledger_world\<lparr>db := ledger_rows\<lparr>
       snapshots := [\<lparr>sn_id = 2, sn_name = ''blank''\<rparr>, \<lparr>sn_id = 4, sn_name = ''layout''\<rparr>],
       snapshot_nodes := [\<lparr>nd_node_id = 4, nd_x = 7, nd_y = 8, nd_address = ''0xD'',
          nd_snapshot_id = Some 4\<rparr>]\<rparr>,
     snapshots_id_seq := 5, snapshot_nodes_node_id_seq := 5,
     log := [Query BEGIN, Query SelectSnapshotId, Query DeleteSnapshotNodes,
       Query DeleteSnapshot, Query InsertSnapshot, Query InsertSnapshotNode, Query COMMIT,
       Query BEGIN, Query SelectSnapshotId, Query DeleteSnapshotNodes,
       Query DeleteSnapshot, Query InsertSnapshot, Query InsertSnapshotNode, Query COMMIT]\<rparr>"

text \<open>
  A database in which two snapshot rows carry the name \<open>dup\<close>, and what it becomes when
  \<open>dup\<close> is saved with \<open>full_node\<close> and then with \<open>other_node\<close>.
\<close>

definition dup_world :: world where
  "dup_world = fresh_world\<lparr>db := no_rows\<lparr>
       snapshots := [\<lparr>sn_id = 1, sn_name = ''dup''\<rparr>, \<lparr>sn_id = 2, sn_name = ''dup''\<rparr>]\<rparr>,
     snapshots_id_seq := 3\<rparr>"

definition dup_once :: world where
  "dup_once = fresh_world\<lparr>db := no_rows\<lparr>
       snapshots := [\<lparr>sn_id = 2, sn_name = ''dup''\<rparr>, \<lparr>sn_id = 3, sn_name = ''dup''\<rparr>],
       snapshot_nodes := [\<lparr>nd_node_id = 1, nd_x = 5, nd_y = 6, nd_address = ''0xC'',
          nd_snapshot_id = Some 3\<rparr>]\<rparr>,
     snapshots_id_seq := 4, snapshot_nodes_node_id_seq := 2,
     log := [Query BEGIN, Query SelectSnapshotId, Query DeleteSnapshotNodes,
       Query DeleteSnapshot, Query InsertSnapshot, Query InsertSnapshotNode, Query COMMIT]\<rparr>"

definition dup_twice :: world where
  "dup_twice = fresh_world\<lparr>db := no_rows\<lparr>
       snapshots := [\<lparr>sn_id = 3, sn_name = ''dup''\<rparr>, \<lparr>sn_id = 4, sn_name = ''dup''\<rparr>],
       snapshot_nodes := [\<lparr>nd_node_id = 1, nd_x = 5, nd_y = 6, nd_address = ''0xC'',
          nd_snapshot_id = Some 3\<rparr>,
         \<lparr>nd_node_id = 2, nd_x = 7, nd_y = 8, nd_address = ''0xD'', nd_snapshot_id = Some 4\<rparr>]\<rparr>,
     snapshots_id_seq := 5, snapshot_nodes_node_id_seq := 3,
     log := [Query BEGIN, Query SelectSnapshotId, Query DeleteSnapshotNodes,
       Query DeleteSnapshot, Query InsertSnapshot, Query InsertSnapshotNode, Query COMMIT,
       Query BEGIN, Query SelectSnapshotId, Query DeleteSnapshotNodes,
       Query DeleteSnapshot, Query InsertSnapshot, Query InsertSnapshotNode, Query COMMIT]\<rparr>"

section \<open>Basic facts\<close>

lemma pool_query_up: "db_up w \<Longrightarrow> pool_query st run w = run (w\<lparr>log := log w @ [Query st]\<rparr>)"
  by (simp add: pool_query_def)

lemma pool_query_down:
  "\<not> db_up w \<Longrightarrow> pool_query st run w = (Inl DbUnavailable, w\<lparr>log := log w @ [Query st]\<rparr>)"
  by (simp add: pool_query_def)

lemma awaitE:
  assumes "await m k w = (r, w')"
  obtains (rejected) e where "m w = (Inl e, w')" "r = Inl e"
        | (resolved) v w1 where "m w = (Inr v, w1)" "k v w1 = (r, w')"
  using assms by (auto simp: await_def split: prod.splits sum.splits)

lemma pool_query_log:
  assumes "\<And>w1 r w2. run w1 = (r, w2) \<Longrightarrow> \<exists>evs. log w2 = log w1 @ evs"
    and "pool_query st run w = (r, w')"
  shows "\<exists>evs. log w' = log w @ Query st # evs"
proof (cases "db_up w")
  case True
  with assms(2) have "run (w\<lparr>log := log w @ [Query st]\<rparr>) = (r, w')"
    by (simp add: pool_query_def)
  from assms(1)[OF this] show ?thesis by auto
next
  case False
  with assms(2) show ?thesis by (auto simp: pool_query_def)
qed

section \<open>The security check: validation\<close>

lemma hex_class_digit: "hex_class ch = hex_digit ch"
proof (cases ch)
  case (Char b0 b1 b2 b3 b4 b5 b6 b7)
  then show ?thesis
    by (cases b0; cases b1; cases b2; cases b3; cases b4; cases b5; cases b6; cases b7)
       (simp_all add: hex_class_def hex_digit_def)
qed

lemma address_match_well_formed: "address_match s = well_formed_address s"
proof (cases s)
  case Nil
  then show ?thesis by (simp add: well_formed_address_def)
next
  case (Cons a t)
  show ?thesis
  proof (cases t)
    case Nil
    with Cons show ?thesis by (simp add: well_formed_address_def)
  next
    case (Cons b rest)
    have "list_all hex_class rest = list_all hex_digit rest"
      by (simp add: hex_class_digit[abs_def])
    with \<open>s = a # t\<close> Cons show ?thesis
      by (auto simp: well_formed_address_def)
  qed
qed

lemma get_metadata_address_log:
  "get_metadata_address a w = (r, w') \<Longrightarrow> \<exists>evs. log w' = log w @ evs"
  by (auto simp: get_metadata_address_def pool_query_def select_address_join_def Let_def
      split: if_splits prod.splits sum.splits)

lemma axios_get_metadata_log:
  "axios_get_metadata a w = (r, w') \<Longrightarrow> \<exists>evs. log w' = log w @ evs"
  unfolding axios_get_metadata_def
  by (auto split: prod.splits response.splits dest!: get_metadata_address_log)

lemma insert_security_check_log:
  "pool_query InsertSecurityCheck (insert_security_check c a sc rp) w = (r, w')
    \<Longrightarrow> \<exists>evs. log w' = log w @ evs"
  by (auto simp: pool_query_def insert_security_check_def Let_def
      split: if_splits option.splits)

lemma assess_cases:
  assumes "assess c sv a w = (r, w')"
  shows "(\<exists>evs. log w' = log w @ evs)
    \<and> ((\<exists>e. r = Inl e) \<or> (\<exists>row. r = Inr (Json (security_json row False))))"
  using assms unfolding assess_def
proof (cases rule: awaitE)
  case (rejected e)
  then show ?thesis using axios_get_metadata_log by blast
next
  case (resolved meta w1)
  from resolved(1) obtain ev1 where l1: "log w1 = log w @ ev1"
    using axios_get_metadata_log by blast
  from resolved(2) show ?thesis
  proof (cases rule: awaitE)
    case (rejected e)
    with l1 show ?thesis by (auto simp: http_def)
  next
    case (resolved data w2)
    with l1 have l2: "log w2 = log w @ ev1 @ [Http SecurityServer]" by (auto simp: http_def)
    show ?thesis
    proof (cases "truthy data \<and> (\<exists>sc. js_get data ''score'' = Inr sc \<and> truthy sc)
        \<and> (\<exists>rp. js_get data ''reports'' = Inr rp \<and> truthy rp)")
      case False
      with resolved(2) l2 show ?thesis
        by (auto simp: await_def of_result_def throw_def split: sum.splits if_splits)
    next
      case True
      then obtain sc rp where "truthy data" "js_get data ''score'' = Inr sc" "truthy sc"
        "js_get data ''reports'' = Inr rp" "truthy rp" by blast
      with resolved(2) have "await (pool_query InsertSecurityCheck
            (insert_security_check c a sc rp))
              (\<lambda>row. return (Json (security_json row False))) w2 = (r, w')"
        by (simp add: await_def of_result_def)
      then show ?thesis
      proof (cases rule: awaitE)
        case (rejected e)
        with l2 insert_security_check_log[OF rejected(1)] show ?thesis by auto
      next
        case (resolved row w3)
        with l2 insert_security_check_log[OF resolved(1)] show ?thesis
          by (auto simp: return_def)
      qed
    qed
  qed
qed

text \<open>
  C8. An address that is not \<open>0x\<close> followed by forty hexadecimal digits is answered 400
  with the state untouched: no statement and no request has been issued. A well-formed
  address is never answered with that rejection, and the first thing the handler does
  for it is the lookup in \<open>security_check\<close>.
\<close>

theorem security_check_validates_first:
  "(\<not> well_formed_address a \<longrightarrow>
      security_check_address c sv a w = (Status 400 ''Invalid Ethereum address format'', w))
   \<and> (well_formed_address a \<longrightarrow>
        (\<forall>msg. fst (security_check_address c sv a w) \<noteq> Status 400 msg)
      \<and> take (Suc (length (log w))) (log (snd (security_check_address c sv a w)))
          = log w @ [Query SelectSecurityCheck])"
proof (intro conjI impI)
  assume "\<not> well_formed_address a"
  then show "security_check_address c sv a w = (Status 400 ''Invalid Ethereum address format'', w)"
    by (simp add: security_check_address_def address_match_well_formed)
next
  assume wf: "well_formed_address a"
  then have m: "address_match a" "a \<noteq> []"
    by (auto simp: address_match_well_formed well_formed_address_def)
  obtain q w1 where sel: "pool_query SelectSecurityCheck (select_security_check a) w = (q, w1)"
    by fastforce
  have l1: "\<exists>evs. log w1 = log w @ Query SelectSecurityCheck # evs"
    by (rule pool_query_log[OF _ sel]) (auto simp: select_security_check_def)
  obtain q2 w2 where as: "assess c sv a w1 = (q2, w2)" by fastforce
  note ac = assess_cases[OF as]
  from l1 ac have l2: "\<exists>evs. log w2 = log w @ Query SelectSecurityCheck # evs" by auto
  have res: "security_check_address c sv a w =
      (case q of Inl e \<Rightarrow> (Error500 e, w1)
       | Inr ex \<Rightarrow> if ex \<noteq> [] then (Json (security_json (hd ex) True), w1)
          else (case q2 of Inl e \<Rightarrow> (Details500 ''Error contacting security service'' e, w2)
                | Inr r \<Rightarrow> (r, w2)))"
    using m sel as by (simp add: security_check_address_def split: sum.splits)
  show "\<forall>msg. fst (security_check_address c sv a w) \<noteq> Status 400 msg"
    using ac by (auto simp: res split: sum.splits)
  show "take (Suc (length (log w))) (log (snd (security_check_address c sv a w)))
          = log w @ [Query SelectSecurityCheck]"
    using l1 l2 by (auto simp: res split: sum.splits)
qed

theorem security_check_validates_first_witness:
  "\<not> well_formed_address ''0xZZZ''
   \<and> security_check_address pg_strict no_services ''0xZZZ'' fresh_world
       = (Status 400 ''Invalid Ethereum address format'', fresh_world)
   \<and> well_formed_address ''0x00000000000000000000000000000000000000aF''
   \<and> (\<forall>msg. fst (security_check_address pg_strict no_services
         ''0x00000000000000000000000000000000000000aF'' fresh_world) \<noteq> Status 400 msg)
   \<and> take 1 (log (snd (security_check_address pg_strict no_services
         ''0x00000000000000000000000000000000000000aF'' fresh_world)))
       = [Query SelectSecurityCheck]"
  using security_check_validates_first[of "''0xZZZ''" pg_strict no_services fresh_world]
    security_check_validates_first[of "''0x00000000000000000000000000000000000000aF''"
      pg_strict no_services fresh_world]
  by (simp add: well_formed_address_def hex_digit_def fresh_world_def)

section \<open>Reading a snapshot\<close>

lemma read_snapshot_up:
  assumes "db_up w"
  shows "read_snapshot nm w =
    (case snapshot_ids (db w) nm of
       [] \<Rightarrow> (Status 404 ''Snapshot not found'', w\<lparr>log := log w @ [Query SelectSnapshotId]\<rparr>)
     | sid # others \<Rightarrow>
         if nodes_of (db w) sid = [] then
           (Json (snapshot_json nm sid [] []),
            w\<lparr>log := log w @ [Query SelectSnapshotId, Query SelectSnapshotNodes]\<rparr>)
         else
           (Json (snapshot_json nm sid (map node_json (nodes_of (db w) sid))
              (map normal_edge (normal_calls (db w) (map nd_address (nodes_of (db w) sid)))
               @ map delegate_edge (delegate_calls (db w) (map nd_address (nodes_of (db w) sid))))),
            w\<lparr>log := log w @ [Query SelectSnapshotId, Query SelectSnapshotNodes,
               Query SelectNormalCalls, Query SelectDelegateCalls]\<rparr>))"
  using assms
  by (simp add: read_snapshot_def read_try_def await_def pool_query_def select_snapshot_id_def
      select_snapshot_nodes_def select_normal_calls_def select_delegate_calls_def return_def
      split: list.splits)

lemma read_snapshot_down:
  "\<not> db_up w \<Longrightarrow> read_snapshot nm w =
     (Error500 DbUnavailable, w\<lparr>log := log w @ [Query SelectSnapshotId]\<rparr>)"
  by (simp add: read_snapshot_def read_try_def await_def pool_query_def)

lemma read_snapshot_same_rows:
  "db w' = db w \<Longrightarrow> db_up w' = db_up w \<Longrightarrow> fst (read_snapshot nm w') = fst (read_snapshot nm w)"
  by (cases "db_up w") (simp_all add: read_snapshot_up read_snapshot_down split: list.splits)


lemma set_normal_calls:
  "set (normal_calls d addrs) =
     {(tr_from_addr t, tr_to_addr t, tr_action t) | t.
        t \<in> set (traces d) \<and> tr_action t \<in> {''call'', ''create'', ''create2''}
        \<and> tr_from_addr t \<in> set addrs \<and> tr_to_addr t \<in> set addrs}"
  by (auto simp: normal_calls_def)

lemma set_delegate_calls:
  "set (delegate_calls d addrs) =
     {(tr_storage_addr t, tr_to_addr t, tr_action t) | t.
        t \<in> set (traces d) \<and> tr_action t = ''delegate_call''
        \<and> tr_storage_addr t \<in> set addrs \<and> tr_to_addr t \<in> set addrs}"
  by (auto simp: delegate_calls_def)

lemma inj_normal_edge: "inj normal_edge"
  by (auto simp: inj_on_def normal_edge_def)

lemma inj_delegate_edge: "inj delegate_edge"
  by (auto simp: inj_on_def delegate_edge_def)

lemma normal_not_delegate: "normal_edge p \<noteq> delegate_edge q"
  by (cases p; cases q) (simp add: normal_edge_def delegate_edge_def)

lemma distinct_edges:
  "distinct (map normal_edge (normal_calls d addrs) @ map delegate_edge (delegate_calls d addrs))"
  by (auto simp: distinct_map normal_calls_def delegate_calls_def normal_not_delegate
      intro: inj_on_subset[OF inj_normal_edge] inj_on_subset[OF inj_delegate_edge])

lemma set_edges:
  "set (map normal_edge (normal_calls d addrs) @ map delegate_edge (delegate_calls d addrs))
     = snapshot_edges d (set addrs)"
  unfolding snapshot_edges_def set_append set_map set_normal_calls set_delegate_calls
  by (intro arg_cong2[where f = "(\<union>)"]) auto

lemma edge_shapes:
  assumes "e \<in> snapshot_edges d A"
  shows "(\<exists>f t a. e = JObj [(''from_addr'', JStr f), (''to_addr'', JStr t), (''action'', JStr a)]
            \<and> a \<in> {''call'', ''create'', ''create2''} \<and> f \<in> A \<and> t \<in> A)
       \<or> (\<exists>s t. e = JObj [(''storage_addr'', JStr s), (''to_addr'', JStr t),
              (''action'', JStr ''delegate_call'')] \<and> s \<in> A \<and> t \<in> A)"
  using assms unfolding snapshot_edges_def normal_edge_def delegate_edge_def by auto

text \<open>
  C4. Whenever a snapshot read succeeds, its traces are, without repetition, exactly the
  groups selected from the ledger for the snapshot's addresses. Each edge is either
  \<open>{from_addr, to_addr, action}\<close> with an action among call, create, create2, or
  \<open>{storage_addr, to_addr, action}\<close> with the action delegate_call; in both cases the two
  addresses it names are addresses of the snapshot's nodes.
\<close>

theorem read_snapshot_edges:
  assumes "read_snapshot nm w = (Json body, w')"
  shows "\<exists>sid es. body = snapshot_json nm sid (map node_json (nodes_of (db w) sid)) es
     \<and> distinct es
     \<and> set es = snapshot_edges (db w) (nd_address ` set (nodes_of (db w) sid))
     \<and> (\<forall>e\<in>set es.
          (\<exists>f t a. e = JObj [(''from_addr'', JStr f), (''to_addr'', JStr t), (''action'', JStr a)]
             \<and> a \<in> {''call'', ''create'', ''create2''}
             \<and> f \<in> nd_address ` set (nodes_of (db w) sid)
             \<and> t \<in> nd_address ` set (nodes_of (db w) sid))
        \<or> (\<exists>s t. e = JObj [(''storage_addr'', JStr s), (''to_addr'', JStr t),
               (''action'', JStr ''delegate_call'')]
             \<and> s \<in> nd_address ` set (nodes_of (db w) sid)
             \<and> t \<in> nd_address ` set (nodes_of (db w) sid)))"
proof -
  have up: "db_up w"
    using assms by (cases "db_up w") (simp_all add: read_snapshot_down)
  from assms up obtain sid others where ids: "snapshot_ids (db w) nm = sid # others"
    by (cases "snapshot_ids (db w) nm") (simp_all add: read_snapshot_up)
  let ?rows = "nodes_of (db w) sid"
  let ?A = "nd_address ` set ?rows"
  let ?es = "map normal_edge (normal_calls (db w) (map nd_address ?rows))
       @ map delegate_edge (delegate_calls (db w) (map nd_address ?rows))"
  have body: "body = snapshot_json nm sid (map node_json ?rows) ?es"
  proof (cases "?rows = []")
    case True
    then show ?thesis
      using assms up ids by (simp add: read_snapshot_up normal_calls_def delegate_calls_def)
  next
    case False
    then show ?thesis using assms up ids by (simp add: read_snapshot_up)
  qed
  have d: "distinct ?es" by (rule distinct_edges)
  have s: "set ?es = snapshot_edges (db w) ?A"
    using set_edges[of "db w" "map nd_address ?rows"] by simp
  have sh: "\<forall>e\<in>set ?es.
          (\<exists>f t a. e = JObj [(''from_addr'', JStr f), (''to_addr'', JStr t), (''action'', JStr a)]
             \<and> a \<in> {''call'', ''create'', ''create2''} \<and> f \<in> ?A \<and> t \<in> ?A)
        \<or> (\<exists>s t. e = JObj [(''storage_addr'', JStr s), (''to_addr'', JStr t),
               (''action'', JStr ''delegate_call'')] \<and> s \<in> ?A \<and> t \<in> ?A)"
  proof
    fix e assume "e \<in> set ?es"
    then have "e \<in> snapshot_edges (db w) ?A" by (simp only: s)
    then show "(\<exists>f t a. e = JObj [(''from_addr'', JStr f), (''to_addr'', JStr t), (''action'', JStr a)]
             \<and> a \<in> {''call'', ''create'', ''create2''} \<and> f \<in> ?A \<and> t \<in> ?A)
        \<or> (\<exists>s t. e = JObj [(''storage_addr'', JStr s), (''to_addr'', JStr t),
               (''action'', JStr ''delegate_call'')] \<and> s \<in> ?A \<and> t \<in> ?A)"
      by (rule edge_shapes)
  qed
  show ?thesis
    apply (rule exI[of _ sid])
    apply (rule exI[of _ ?es])
    apply (rule conjI[OF body])
    apply (rule conjI[OF d])
    apply (rule conjI[OF s])
    apply (rule sh)
    done
qed

lemma read_layout:
  "read_snapshot ''layout'' ledger_world =
     (Json (snapshot_json ''layout'' 1
        [JObj [(''node_id'', JNum 1), (''x'', JNum 10), (''y'', JNum 20), (''address'', JStr ''0xA'')],
         JObj [(''node_id'', JNum 2), (''x'', JNum 30), (''y'', JNum 40), (''address'', JStr ''0xB'')]]
        [JObj [(''from_addr'', JStr ''0xA''), (''to_addr'', JStr ''0xB''), (''action'', JStr ''call'')],
         JObj [(''storage_addr'', JStr ''0xA''), (''to_addr'', JStr ''0xB''),
           (''action'', JStr ''delegate_call'')]]),
      ledger_world\<lparr>log := [Query SelectSnapshotId, Query SelectSnapshotNodes,
        Query SelectNormalCalls, Query SelectDelegateCalls]\<rparr>)"
  by (simp add: read_snapshot_up ledger_world_def ledger_rows_def snapshot_ids_def nodes_of_def
      normal_calls_def delegate_calls_def node_json_def normal_edge_def delegate_edge_def)

theorem read_snapshot_edges_witness:
  "\<exists>sid es. fst (read_snapshot ''layout'' ledger_world)
       = Json (snapshot_json ''layout'' sid (map node_json (nodes_of (db ledger_world) sid)) es)
     \<and> distinct es
     \<and> set es = snapshot_edges (db ledger_world) (nd_address ` set (nodes_of (db ledger_world) sid))"
  using read_snapshot_edges[OF read_layout] by (simp only: read_layout fst_conv) blast


text \<open>
  C3. On the three ledger rows of the claim, with both addresses in the snapshot, the
  read returns two edges, the call edge and the delegate edge, kept apart. Neither
  carries a \<open>count\<close>: the queries group the rows without counting them.
\<close>

theorem read_snapshot_edges_carry_no_count:
  "fst (read_snapshot ''layout'' ledger_world) =
     Json (snapshot_json ''layout'' 1
        [JObj [(''node_id'', JNum 1), (''x'', JNum 10), (''y'', JNum 20), (''address'', JStr ''0xA'')],
         JObj [(''node_id'', JNum 2), (''x'', JNum 30), (''y'', JNum 40), (''address'', JStr ''0xB'')]]
        [JObj [(''from_addr'', JStr ''0xA''), (''to_addr'', JStr ''0xB''), (''action'', JStr ''call'')],
         JObj [(''storage_addr'', JStr ''0xA''), (''to_addr'', JStr ''0xB''),
           (''action'', JStr ''delegate_call'')]])
   \<and> js_get (JObj [(''from_addr'', JStr ''0xA''), (''to_addr'', JStr ''0xB''),
         (''action'', JStr ''call'')]) ''count'' = Inr JUndefined
   \<and> js_get (JObj [(''storage_addr'', JStr ''0xA''), (''to_addr'', JStr ''0xB''),
         (''action'', JStr ''delegate_call'')]) ''count'' = Inr JUndefined"
  by (simp add: read_layout)

section \<open>Traces and their metadata\<close>














lemma enrich_down: "\<not> db_up w \<Longrightarrow> fst (enrich ts w) = Json (ts, Map.empty)"
  by (simp add: enrich_def Let_def pool_query_def)



text \<open>
  C7. When the database cannot be reached, a trace query by address or by block that the
  logic server answers still succeeds: it returns the traces, with empty metadata.
\<close>

theorem trace_metadata_degrades:
  assumes "\<not> db_up w"
  shows "(a \<noteq> [] \<and> trace_address sv a = Inr ts \<longrightarrow>
            fst (get_trace sv (Some a) txn block w) = Json (ts, Map.empty))
       \<and> (b \<noteq> [] \<and> trace_block sv b = Inr ts \<longrightarrow>
            fst (get_trace sv None None (Some b) w) = Json (ts, Map.empty))"
  using assms
  by (auto simp: get_trace_def given_def http_def enrich_def Let_def pool_query_def)




theorem trace_metadata_degrades_witness:
  "\<not> db_up (address_world\<lparr>db_up := False\<rparr>)
   \<and> addr_X \<noteq> [] \<and> trace_address example_services addr_X = Inr example_traces
   \<and> fst (get_trace example_services (Some addr_X) None None (address_world\<lparr>db_up := False\<rparr>))
        = Json (example_traces, Map.empty)
   \<and> trace_block example_services ''17'' = Inr example_traces
   \<and> fst (get_trace example_services None None (Some ''17'') (address_world\<lparr>db_up := False\<rparr>))
        = Json (example_traces, Map.empty)"
  using trace_metadata_degrades[of "address_world\<lparr>db_up := False\<rparr>" addr_X example_services
      example_traces None None "''17''"]
  by (simp add: example_services_def addr_X_def)

section \<open>The security check: cache and scorer\<close>

lemma split_commas_none: "CHR '','' \<notin> set s \<Longrightarrow> split_commas s = [s]"
  by (induction s) auto

lemma well_formed_no_comma:
  assumes "well_formed_address a"
  shows "CHR '','' \<notin> set a"
proof
  assume c: "CHR '','' \<in> set a"
  from assms have l: "length a = 42" and p: "take 2 a = ''0x''" and h: "list_all hex_digit (drop 2 a)"
    by (auto simp: well_formed_address_def)
  have "a = take 2 a @ drop 2 a" by simp
  with c have "CHR '','' \<in> set (take 2 a) \<or> CHR '','' \<in> set (drop 2 a)"
    by (metis Un_iff set_append)
  then show False
  proof
    assume "CHR '','' \<in> set (take 2 a)" with p show False by simp
  next
    assume "CHR '','' \<in> set (drop 2 a)"
    with h have "hex_digit CHR '',''" by (simp add: list_all_iff)
    then show False by (simp add: hex_digit_def)
  qed
qed

lemma axios_get_metadata_up:
  assumes "db_up w" "well_formed_address a"
  shows "axios_get_metadata a w =
     (case own_metadata (db w) a of
        None \<Rightarrow> Inl (HttpStatus 404)
      | Some m \<Rightarrow> Inr m,
      w\<lparr>log := log w @ [Http (MetadataAddress a), Query SelectAddressJoinProtocol]\<rparr>)"
  using assms(1) split_commas_none[OF well_formed_no_comma[OF assms(2)]]
  by (simp add: axios_get_metadata_def get_metadata_address_def pool_query_def
      select_address_join_def own_metadata_def split: list.splits)

lemma security_lookup:
  assumes "db_up w" "well_formed_address a"
  shows "security_check_address c sv a w =
     (case security_rows (db w) a of
        row # rows \<Rightarrow> (Json (security_json row True), w\<lparr>log := log w @ [Query SelectSecurityCheck]\<rparr>)
      | [] \<Rightarrow>
         (case assess c sv a (w\<lparr>log := log w @ [Query SelectSecurityCheck]\<rparr>) of
            (Inl serviceError, w'') \<Rightarrow> (Details500 service_message serviceError, w'')
          | (Inr r, w'') \<Rightarrow> (r, w'')))"
proof -
  from assms(2) have "address_match a" "a \<noteq> []"
    by (auto simp: address_match_well_formed well_formed_address_def)
  with assms(1) show ?thesis
    unfolding service_message_def
    by (simp add: security_check_address_def pool_query_def select_security_check_def
        split: list.splits)
qed

lemma assess_no_metadata:
  assumes "db_up w" "well_formed_address a" "own_metadata (db w) a = None"
  shows "assess c sv a w = (Inl (HttpStatus 404),
     w\<lparr>log := log w @ [Http (MetadataAddress a), Query SelectAddressJoinProtocol]\<rparr>)"
  using assms by (simp add: assess_def await_def axios_get_metadata_up)

lemma assess_scorer_fails:
  assumes "db_up w" "well_formed_address a" "own_metadata (db w) a = Some m"
    "security_server sv m = Inl e"
  shows "assess c sv a w = (Inl e,
     w\<lparr>log := log w @ [Http (MetadataAddress a), Query SelectAddressJoinProtocol,
        Http SecurityServer]\<rparr>)"
  using assms by (simp add: assess_def await_def axios_get_metadata_up http_def)

lemma assess_invalid:
  assumes "db_up w" "well_formed_address a" "own_metadata (db w) a = Some m"
    "security_server sv m = Inr data"
    "\<not> truthy data \<or> (\<exists>v. js_get data ''score'' = Inr v \<and> \<not> truthy v)
      \<or> (\<exists>v. js_get data ''reports'' = Inr v \<and> \<not> truthy v)"
  shows "assess c sv a w = (Inl InvalidResponse,
     w\<lparr>log := log w @ [Http (MetadataAddress a), Query SelectAddressJoinProtocol,
        Http SecurityServer]\<rparr>)"
proof -
  have g: "truthy data \<Longrightarrow> \<exists>v. js_get data k = Inr v" for k
    by (cases data) auto
  show ?thesis
    using assms g[of "''score''"] g[of "''reports''"]
    by (auto simp: assess_def await_def axios_get_metadata_up http_def throw_def of_result_def)
qed

lemma ascii_hex: "list_all hex_digit s \<Longrightarrow> ascii_text s"
  by (induction s) (auto simp: hex_digit_def ascii_text_def)

lemma varchar_address:
  assumes "well_formed_address a"
  shows "varchar c 42 (JStr a) = Some a"
proof -
  from assms have l: "length a = 42" and p: "take 2 a = ''0x''" and h: "list_all hex_digit (drop 2 a)"
    by (auto simp: well_formed_address_def)
  have "ascii_text (take 2 a)" using p by (simp add: ascii_text_def)
  moreover have "ascii_text (drop 2 a)" by (rule ascii_hex[OF h])
  ultimately have "ascii_text (take 2 a @ drop 2 a)"
    unfolding ascii_text_def by (simp only: list_all_append)
  then have "ascii_text a" by simp
  with l show ?thesis by (simp add: varchar_def)
qed

lemma assess_valid:
  assumes "db_up w" "well_formed_address a" "own_metadata (db w) a = Some m"
    "security_server sv m = Inr data"
    "js_get data ''score'' = Inr sc" "truthy sc"
    "js_get data ''reports'' = Inr rp" "truthy rp"
    "int4 c sc = Some s" "jsonb c rp = Some r"
    "security_rows (db w) a = []"
  shows "assess c sv a w =
     (Inr (Json (security_json \<lparr>sc_address = a, sc_score = s, sc_reports = r\<rparr> False)),
      w\<lparr>db := (db w)\<lparr>security_check := security_check (db w)
             @ [\<lparr>sc_address = a, sc_score = s, sc_reports = r\<rparr>]\<rparr>,
        log := log w @ [Http (MetadataAddress a), Query SelectAddressJoinProtocol,
          Http SecurityServer, Query InsertSecurityCheck]\<rparr>)"
proof -
  have t: "truthy data" using assms(5,6) by (cases data) auto
  have fresh: "a \<notin> sc_address ` set (security_check (db w))"
    using assms(11) by (auto simp: security_rows_def filter_empty_conv)
  show ?thesis
    using assms(1-10) t fresh
    by (simp add: assess_def await_def axios_get_metadata_up http_def of_result_def
        pool_query_def insert_security_check_def varchar_address return_def)
qed

text \<open>
  C9, as amended. Take a well-formed address with no stored record whose own metadata
  request is answered (the address has a row in \<open>addresses\<close>), on a reachable database.
  If the scorer answers with a truthy score and truthy reports that the database accepts,
  the first call issues exactly one request to the scorer, appends the row to
  \<open>security_check\<close> and returns it with \<open>cached = false\<close>; any later call for the
  address, whatever the scorer would say, issues only the lookup and returns the same
  address, score and reports with \<open>cached = true\<close>. If the scorer's answer lacks the score
  or the reports, the call is answered 500 and nothing but the log has changed.
\<close>

theorem security_cache_read_through:
  assumes "well_formed_address a" "db_up w" "security_rows (db w) a = []"
    and "own_metadata (db w) a = Some m"
  shows "(\<forall>data sc rp s r.
            security_server sv m = Inr data
          \<and> js_get data ''score'' = Inr sc \<and> truthy sc
          \<and> js_get data ''reports'' = Inr rp \<and> truthy rp
          \<and> int4 c sc = Some s \<and> jsonb c rp = Some r
          \<longrightarrow> (\<exists>w1. security_check_address c sv a w
                      = (Json (security_json \<lparr>sc_address = a, sc_score = s, sc_reports = r\<rparr> False), w1)
                \<and> security_check (db w1)
                      = security_check (db w) @ [\<lparr>sc_address = a, sc_score = s, sc_reports = r\<rparr>]
                \<and> log w1 = log w @ [Query SelectSecurityCheck, Http (MetadataAddress a),
                      Query SelectAddressJoinProtocol, Http SecurityServer, Query InsertSecurityCheck]
                \<and> (\<forall>c' sv'. security_check_address c' sv' a w1
                      = (Json (security_json \<lparr>sc_address = a, sc_score = s, sc_reports = r\<rparr> True),
                         w1\<lparr>log := log w1 @ [Query SelectSecurityCheck]\<rparr>))))
       \<and> (\<forall>data.
            security_server sv m = Inr data
          \<and> (js_get data ''score'' = Inr JUndefined \<or> js_get data ''reports'' = Inr JUndefined)
          \<longrightarrow> security_check_address c sv a w
                = (Details500 ''Error contacting security service'' InvalidResponse,
                   w\<lparr>log := log w @ [Query SelectSecurityCheck, Http (MetadataAddress a),
                      Query SelectAddressJoinProtocol, Http SecurityServer]\<rparr>))"
proof (intro conjI allI impI)
  fix data sc rp s r
  assume h: "security_server sv m = Inr data
          \<and> js_get data ''score'' = Inr sc \<and> truthy sc
          \<and> js_get data ''reports'' = Inr rp \<and> truthy rp
          \<and> int4 c sc = Some s \<and> jsonb c rp = Some r"
  let ?row = "\<lparr>sc_address = a, sc_score = s, sc_reports = r\<rparr>"
  let ?w0 = "w\<lparr>log := log w @ [Query SelectSecurityCheck]\<rparr>"
  let ?w1 = "?w0\<lparr>db := (db ?w0)\<lparr>security_check := security_check (db ?w0) @ [?row]\<rparr>,
        log := log ?w0 @ [Http (MetadataAddress a), Query SelectAddressJoinProtocol,
          Http SecurityServer, Query InsertSecurityCheck]\<rparr>"
  have as: "assess c sv a ?w0 = (Inr (Json (security_json ?row False)), ?w1)"
    by (rule assess_valid[where m = m and data = data and sc = sc and rp = rp])
       (use assms h in simp_all)
  have first: "security_check_address c sv a w = (Json (security_json ?row False), ?w1)"
    using assms(1-3) as by (simp add: security_lookup)
  have up1: "db_up ?w1" using assms(2) by simp
  have rows1: "security_rows (db ?w1) a = [?row]"
    using assms(3) by (simp add: security_rows_def)
  have second: "security_check_address c' sv' a ?w1
      = (Json (security_json ?row True), ?w1\<lparr>log := log ?w1 @ [Query SelectSecurityCheck]\<rparr>)"
    for c' sv'
    using security_lookup[OF up1 assms(1), of c' sv'] rows1 by simp
  show "\<exists>w1. security_check_address c sv a w = (Json (security_json ?row False), w1)
        \<and> security_check (db w1) = security_check (db w) @ [?row]
        \<and> log w1 = log w @ [Query SelectSecurityCheck, Http (MetadataAddress a),
              Query SelectAddressJoinProtocol, Http SecurityServer, Query InsertSecurityCheck]
        \<and> (\<forall>c' sv'. security_check_address c' sv' a w1
              = (Json (security_json ?row True), w1\<lparr>log := log w1 @ [Query SelectSecurityCheck]\<rparr>))"
    apply (rule exI[of _ ?w1])
    apply (intro conjI allI)
       apply (rule first)
      apply simp
     apply simp
    apply (rule second)
    done
next
  fix data
  assume h: "security_server sv m = Inr data
          \<and> (js_get data ''score'' = Inr JUndefined \<or> js_get data ''reports'' = Inr JUndefined)"
  let ?w0 = "w\<lparr>log := log w @ [Query SelectSecurityCheck]\<rparr>"
  have "assess c sv a ?w0 = (Inl InvalidResponse,
     ?w0\<lparr>log := log ?w0 @ [Http (MetadataAddress a), Query SelectAddressJoinProtocol,
        Http SecurityServer]\<rparr>)"
    by (rule assess_invalid[where m = m and data = data]) (use assms h in auto)
  then show "security_check_address c sv a w
      = (Details500 ''Error contacting security service'' InvalidResponse,
         w\<lparr>log := log w @ [Query SelectSecurityCheck, Http (MetadataAddress a),
            Query SelectAddressJoinProtocol, Http SecurityServer]\<rparr>)"
    using assms(1-3) by (simp add: security_lookup service_message_def)
qed

text \<open>
  C10. Under the same conditions, a scorer answer whose score is the number 0 is
  answered 500 with the invalid-response error and leaves every row as it was; the
  response and the resulting state are the same as for an answer without a score.
\<close>

theorem zero_score_is_scoring_failure:
  assumes "well_formed_address a" "db_up w" "security_rows (db w) a = []"
    and "own_metadata (db w) a = Some m"
    and "security_server sv m = Inr data" "js_get data ''score'' = Inr (JNum 0)"
  shows "security_check_address c sv a w
           = (Details500 ''Error contacting security service'' InvalidResponse,
              w\<lparr>log := log w @ [Query SelectSecurityCheck, Http (MetadataAddress a),
                 Query SelectAddressJoinProtocol, Http SecurityServer]\<rparr>)
       \<and> (\<forall>sv' data'. security_server sv' m = Inr data' \<and> js_get data' ''score'' = Inr JUndefined
            \<longrightarrow> security_check_address c sv' a w = security_check_address c sv a w)"
proof -
  let ?w0 = "w\<lparr>log := log w @ [Query SelectSecurityCheck]\<rparr>"
  have inv: "assess c sv' a ?w0 = (Inl InvalidResponse,
     ?w0\<lparr>log := log ?w0 @ [Http (MetadataAddress a), Query SelectAddressJoinProtocol,
        Http SecurityServer]\<rparr>)"
    if "security_server sv' m = Inr data'"
      "js_get data' ''score'' = Inr (JNum 0) \<or> js_get data' ''score'' = Inr JUndefined"
    for sv' data'
    by (rule assess_invalid[where m = m and data = data']) (use assms that in auto)
  have res: "security_check_address c sv' a w
           = (Details500 ''Error contacting security service'' InvalidResponse,
              w\<lparr>log := log w @ [Query SelectSecurityCheck, Http (MetadataAddress a),
                 Query SelectAddressJoinProtocol, Http SecurityServer]\<rparr>)"
    if "security_server sv' m = Inr data'"
      "js_get data' ''score'' = Inr (JNum 0) \<or> js_get data' ''score'' = Inr JUndefined"
    for sv' data'
    using inv[OF that] assms(1-3) by (simp add: security_lookup service_message_def)
  show ?thesis
    using res[of sv data] res assms(5,6) by simp
qed

lemma addr_X_well_formed: "well_formed_address addr_X"
  by (simp add: well_formed_address_def addr_X_def hex_digit_def)

lemma addr_Y_well_formed: "well_formed_address addr_Y"
  by (simp add: well_formed_address_def addr_Y_def hex_digit_def)

lemma address_world_up: "db_up address_world"
  by (simp add: address_world_def fresh_world_def)

lemma address_world_fresh: "security_rows (db address_world) a = []"
  by (simp add: address_world_def fresh_world_def address_rows_def no_rows_def security_rows_def)

lemma address_world_metadata:
  "own_metadata (db address_world) addr_X =
     Some (JObj [(''address'', JStr addr_X), (''contract_name'', JStr ''Token''),
       (''protocol_id'', JNull), (''protocol_name'', JNull), (''protocol_symbol'', JNull),
       (''protocol_type'', JNull)])"
  by (simp add: own_metadata_def address_join_def left_join_def joined_json_def opt_str_def
      opt_num_def address_world_def fresh_world_def address_rows_def no_rows_def)

lemma address_world_no_metadata: "own_metadata (db address_world) addr_Y = None"
  by (simp add: own_metadata_def address_join_def address_world_def fresh_world_def
      address_rows_def no_rows_def addr_X_def addr_Y_def)

text \<open>
  Against C9 as stated: for a well-formed address with no stored record and no row in
  \<open>addresses\<close>, the first call is answered 500 after the metadata request came back 404.
  No request reached the scorer and nothing was stored.
\<close>

theorem security_check_unknown_address:
  "well_formed_address addr_Y
   \<and> security_rows (db address_world) addr_Y = []
   \<and> security_check_address pg_strict example_services addr_Y address_world
       = (Details500 ''Error contacting security service'' (HttpStatus 404),
          address_world\<lparr>log := [Query SelectSecurityCheck, Http (MetadataAddress addr_Y),
            Query SelectAddressJoinProtocol]\<rparr>)"
proof -
  let ?w0 = "address_world\<lparr>log := log address_world @ [Query SelectSecurityCheck]\<rparr>"
  have "assess pg_strict example_services addr_Y ?w0 = (Inl (HttpStatus 404),
     ?w0\<lparr>log := log ?w0 @ [Http (MetadataAddress addr_Y), Query SelectAddressJoinProtocol]\<rparr>)"
    by (rule assess_no_metadata)
       (simp_all add: address_world_up addr_Y_well_formed address_world_no_metadata)
  moreover have "log address_world = []" by (simp add: address_world_def fresh_world_def)
  ultimately show ?thesis
    by (simp add: security_lookup[OF address_world_up addr_Y_well_formed] address_world_fresh
        addr_Y_well_formed service_message_def)
qed

theorem security_cache_read_through_witness:
  "well_formed_address addr_X \<and> db_up address_world
   \<and> security_rows (db address_world) addr_X = []
   \<and> (\<exists>w1. security_check_address pg_strict example_services addr_X address_world
          = (Json (security_json \<lparr>sc_address = addr_X, sc_score = 85,
                sc_reports = JObj [(''summary'', JStr ''ok'')]\<rparr> False), w1)
        \<and> security_check (db w1) = [\<lparr>sc_address = addr_X, sc_score = 85,
                sc_reports = JObj [(''summary'', JStr ''ok'')]\<rparr>]
        \<and> security_check_address pg_strict no_services addr_X w1
          = (Json (security_json \<lparr>sc_address = addr_X, sc_score = 85,
                sc_reports = JObj [(''summary'', JStr ''ok'')]\<rparr> True),
             w1\<lparr>log := log w1 @ [Query SelectSecurityCheck]\<rparr>))
   \<and> fst (security_check_address pg_strict no_score_services addr_X address_world)
        = Details500 ''Error contacting security service'' InvalidResponse"
proof -
  note T = security_cache_read_through[OF addr_X_well_formed address_world_up
      address_world_fresh address_world_metadata]
  have a: "\<exists>w1. security_check_address pg_strict example_services addr_X address_world
          = (Json (security_json \<lparr>sc_address = addr_X, sc_score = 85,
                sc_reports = JObj [(''summary'', JStr ''ok'')]\<rparr> False), w1)
        \<and> security_check (db w1) = security_check (db address_world)
             @ [\<lparr>sc_address = addr_X, sc_score = 85, sc_reports = JObj [(''summary'', JStr ''ok'')]\<rparr>]
        \<and> log w1 = log address_world @ [Query SelectSecurityCheck, Http (MetadataAddress addr_X),
              Query SelectAddressJoinProtocol, Http SecurityServer, Query InsertSecurityCheck]
        \<and> (\<forall>c' sv'. security_check_address c' sv' addr_X w1
              = (Json (security_json \<lparr>sc_address = addr_X, sc_score = 85,
                    sc_reports = JObj [(''summary'', JStr ''ok'')]\<rparr> True),
                 w1\<lparr>log := log w1 @ [Query SelectSecurityCheck]\<rparr>))"
    by (rule T[of example_services pg_strict, THEN conjunct1, rule_format,
          of "JObj [(''score'', JNum 85), (''reports'', JObj [(''summary'', JStr ''ok'')])]"
             "JNum 85" "JObj [(''summary'', JStr ''ok'')]"])
       (simp add: example_services_def int4_def jsonb_def pg_strict_def)
  have b: "security_check_address pg_strict no_score_services addr_X address_world
        = (Details500 ''Error contacting security service'' InvalidResponse,
           address_world\<lparr>log := log address_world @ [Query SelectSecurityCheck,
             Http (MetadataAddress addr_X), Query SelectAddressJoinProtocol, Http SecurityServer]\<rparr>)"
    by (rule T[of no_score_services pg_strict, THEN conjunct2, rule_format,
          of "JObj [(''reports'', JObj [(''summary'', JStr ''ok'')])]"])
       (simp add: no_score_services_def example_services_def)
  have e: "security_check (db address_world) = []"
    by (simp add: address_world_def fresh_world_def address_rows_def no_rows_def)
  from a b e show ?thesis
    by (auto simp: addr_X_well_formed address_world_up address_world_fresh)
qed

theorem zero_score_is_scoring_failure_witness:
  "well_formed_address addr_X \<and> db_up address_world
   \<and> security_rows (db address_world) addr_X = []
   \<and> fst (security_check_address pg_strict zero_score_services addr_X address_world)
        = Details500 ''Error contacting security service'' InvalidResponse
   \<and> db (snd (security_check_address pg_strict zero_score_services addr_X address_world))
        = db address_world
   \<and> security_check_address pg_strict no_score_services addr_X address_world
        = security_check_address pg_strict zero_score_services addr_X address_world"
proof -
  have z: "security_server zero_score_services
      (JObj [(''address'', JStr addr_X), (''contract_name'', JStr ''Token''),
       (''protocol_id'', JNull), (''protocol_name'', JNull), (''protocol_symbol'', JNull),
       (''protocol_type'', JNull)])
     = Inr (JObj [(''score'', JNum 0), (''reports'', JObj [(''summary'', JStr ''ok'')])])"
    by (simp add: zero_score_services_def example_services_def)
  have s: "js_get (JObj [(''score'', JNum 0), (''reports'', JObj [(''summary'', JStr ''ok'')])])
      ''score'' = Inr (JNum 0)" by simp
  note T = zero_score_is_scoring_failure[OF addr_X_well_formed address_world_up
      address_world_fresh address_world_metadata z s, of pg_strict]
  have n: "security_check_address pg_strict no_score_services addr_X address_world
        = security_check_address pg_strict zero_score_services addr_X address_world"
    by (rule T[THEN conjunct2, rule_format,
          of no_score_services "JObj [(''reports'', JObj [(''summary'', JStr ''ok'')])]"])
       (simp add: no_score_services_def example_services_def)
  from T[THEN conjunct1] n show ?thesis
    by (simp add: addr_X_well_formed address_world_up address_world_fresh)
qed

section \<open>Saving a snapshot\<close>

lemma insert_node_in_tx:
  "in_tx d w \<Longrightarrow> pool_query InsertSnapshotNode (insert_snapshot_node c vx vy va sid) w = (r, w')
    \<Longrightarrow> in_tx d w'"
  by (auto simp: in_tx_def pool_query_def insert_snapshot_node_def refused_int4_def Let_def
      split: option.splits if_splits)

lemma rollback_in_tx:
  "in_tx d w \<Longrightarrow> pool_query ROLLBACK rollback_tx w = (r, w')
    \<Longrightarrow> r = Inr () \<and> db w' = d \<and> tx w' = None \<and> db_up w'"
  by (auto simp: in_tx_def pool_query_def rollback_tx_def)

lemma insert_nodes_in_tx:
  "in_tx d w \<Longrightarrow> insert_nodes c sid ns w = (r, w') \<Longrightarrow>
     (\<exists>e. r = Inl e \<and> in_tx d w')
   \<or> (r = Inr (Some (Status 400 ''Each node must have x, y, and address properties''))
        \<and> db w' = d \<and> tx w' = None \<and> db_up w')
   \<or> (r = Inr None \<and> in_tx d w' \<and> \<not> list_ex lacks_property ns)"
proof (induction ns arbitrary: w)
  case Nil
  then show ?case by simp
next
  case (Cons node rest)
  show ?case
  proof (cases "node_properties node")
    case (Inl e)
    with Cons.prems show ?thesis by auto
  next
    case (Inr p)
    obtain vx vy va where p: "p = (vx, vy, va)" by (cases p) auto
    show ?thesis
    proof (cases "vx = JUndefined \<or> vy = JUndefined \<or> va = JUndefined")
      case True
      obtain q w1 where rb: "pool_query ROLLBACK rollback_tx w = (q, w1)" by fastforce
      from rollback_in_tx[OF Cons.prems(1) rb] Cons.prems(2) Inr p True rb
      show ?thesis by (auto simp: await_def return_def)
    next
      case False
      obtain q w1 where ins:
        "pool_query InsertSnapshotNode (insert_snapshot_node c vx vy va sid) w = (q, w1)"
        by fastforce
      have tx1: "in_tx d w1" by (rule insert_node_in_tx[OF Cons.prems(1) ins])
      show ?thesis
      proof (cases q)
        case (Inl e)
        with Cons.prems(2) Inr p False ins tx1 show ?thesis by auto
      next
        case (Inr u)
        with Cons.prems(2) \<open>node_properties node = Inr p\<close> p False ins
        have rec: "insert_nodes c sid rest w1 = (r, w')" by auto
        from Cons.IH[OF tx1 rec] \<open>node_properties node = Inr p\<close> p False
        show ?thesis by (auto simp: lacks_property_def)
      qed
    qed
  qed
qed

lemma begin_in_tx:
  "db_up w \<Longrightarrow> tx w = None \<Longrightarrow> pool_query BEGIN begin_tx w = (r, w')
    \<Longrightarrow> r = Inr () \<and> in_tx (db w) w' \<and> db w' = db w"
  by (auto simp: in_tx_def pool_query_def begin_tx_def)

lemma select_snapshot_id_in_tx:
  "in_tx d w \<Longrightarrow> pool_query SelectSnapshotId (select_snapshot_id nm) w = (r, w')
    \<Longrightarrow> in_tx d w'"
  by (auto simp: in_tx_def pool_query_def select_snapshot_id_def snapshot_ids_def)

lemma delete_nodes_in_tx:
  "in_tx d w \<Longrightarrow> pool_query DeleteSnapshotNodes (delete_snapshot_nodes sid) w = (r, w')
    \<Longrightarrow> in_tx d w'"
  by (auto simp: in_tx_def pool_query_def delete_snapshot_nodes_def)

lemma delete_snapshot_in_tx:
  "in_tx d w \<Longrightarrow> pool_query DeleteSnapshot (delete_snapshot sid) w = (r, w')
    \<Longrightarrow> in_tx d w'"
  by (auto simp: in_tx_def pool_query_def delete_snapshot_def)

lemma insert_snapshot_in_tx:
  "in_tx d w \<Longrightarrow> pool_query InsertSnapshot (insert_snapshot c nm) w = (r, w')
    \<Longrightarrow> in_tx d w'"
  by (auto simp: in_tx_def pool_query_def insert_snapshot_def Let_def split: option.splits if_splits)

lemma commit_in_tx:
  "in_tx d w \<Longrightarrow> pool_query COMMIT commit_tx w = (r, w')
    \<Longrightarrow> r = Inr () \<and> tx w' = None \<and> db_up w'"
  by (auto simp: in_tx_def pool_query_def commit_tx_def)

lemma delete_existing_in_tx:
  assumes "in_tx d w"
    and "(if ex \<noteq> [] then
            await (pool_query DeleteSnapshotNodes (delete_snapshot_nodes (hd ex)))
              (\<lambda>_. pool_query DeleteSnapshot (delete_snapshot (hd ex)))
          else return ()) w = (r, w')"
  shows "in_tx d w'"
proof (cases "ex = []")
  case True
  with assms show ?thesis by (simp add: return_def)
next
  case False
  with assms(2) have "await (pool_query DeleteSnapshotNodes (delete_snapshot_nodes (hd ex)))
              (\<lambda>_. pool_query DeleteSnapshot (delete_snapshot (hd ex))) w = (r, w')" by simp
  then show ?thesis
  proof (cases rule: awaitE)
    case (rejected e)
    then show ?thesis using delete_nodes_in_tx[OF assms(1)] by blast
  next
    case (resolved v w1)
    then show ?thesis
      using delete_nodes_in_tx[OF assms(1)] delete_snapshot_in_tx by blast
  qed
qed

lemma save_try_cases:
  assumes up: "db_up w" and idle: "tx w = None"
    and run: "save_try c nm ns w = (r, w')"
  shows "(\<exists>e. r = Inl e \<and> in_tx (db w) w')
   \<or> (r = Inr (Status 400 ''Each node must have x, y, and address properties'')
        \<and> db w' = db w \<and> tx w' = None \<and> db_up w')
   \<or> ((\<exists>body. r = Inr (Json body)) \<and> tx w' = None \<and> db_up w' \<and> \<not> list_ex lacks_property ns)"
  using run unfolding save_try_def
proof (cases rule: awaitE)
  case (rejected e)
  with begin_in_tx[OF up idle] show ?thesis by blast
next
  case (resolved u w1)
  with begin_in_tx[OF up idle] have t1: "in_tx (db w) w1" by blast
  from resolved(2) show ?thesis
  proof (cases rule: awaitE)
    case (rejected e)
    with select_snapshot_id_in_tx[OF t1] show ?thesis by blast
  next
    case (resolved ex w2)
    with select_snapshot_id_in_tx[OF t1] have t2: "in_tx (db w) w2" by blast
    from resolved(2) show ?thesis
    proof (cases rule: awaitE)
      case (rejected e)
      with delete_existing_in_tx[OF t2] show ?thesis by blast
    next
      case (resolved u3 w3)
      with delete_existing_in_tx[OF t2] have t3: "in_tx (db w) w3" by blast
      from resolved(2) show ?thesis
      proof (cases rule: awaitE)
        case (rejected e)
        with insert_snapshot_in_tx[OF t3] show ?thesis by blast
      next
        case (resolved sid w4)
        with insert_snapshot_in_tx[OF t3] have t4: "in_tx (db w) w4" by blast
        from resolved(2) show ?thesis
        proof (cases rule: awaitE)
          case (rejected e)
          with insert_nodes_in_tx[OF t4 rejected(1)] show ?thesis by auto
        next
          case (resolved answered w5)
          note loop = insert_nodes_in_tx[OF t4 resolved(1)]
          show ?thesis
          proof (cases answered)
            case None
            with loop have t5: "in_tx (db w) w5" and ok: "\<not> list_ex lacks_property ns" by auto
            from resolved(2) None have
              "await (pool_query COMMIT commit_tx) (\<lambda>_. return (Json (saved_json sid))) w5 = (r, w')"
              by simp
            then show ?thesis
            proof (cases rule: awaitE)
              case (rejected e)
              with commit_in_tx[OF t5] show ?thesis by blast
            next
              case (resolved u6 w6)
              with commit_in_tx[OF t5] ok show ?thesis by (auto simp: return_def)
            qed
          next
            case (Some a)
            with loop resolved(2) show ?thesis by (auto simp: return_def)
          qed
        qed
      qed
    qed
  qed
qed

lemma delete_existing_up:
  assumes "db_up w"
  shows "(if ex \<noteq> [] then
            await (pool_query DeleteSnapshotNodes (delete_snapshot_nodes (hd ex)))
              (\<lambda>_. pool_query DeleteSnapshot (delete_snapshot (hd ex)))
          else return ()) w
     = (Inr (),
        if ex = [] then w
        else w\<lparr>db := (db w)\<lparr>snapshots := filter (\<lambda>r. sn_id r \<noteq> hd ex) (snapshots (db w)),
                 snapshot_nodes := filter (\<lambda>n. nd_snapshot_id n \<noteq> Some (hd ex)) (snapshot_nodes (db w))\<rparr>,
               log := log w @ [Query DeleteSnapshotNodes, Query DeleteSnapshot]\<rparr>)"
  using assms
  by (simp add: await_def pool_query_def delete_snapshot_nodes_def delete_snapshot_def return_def)

lemma save_try_up:
  assumes "db_up w" "tx w = None"
  shows "save_try c nm ns w =
     await (pool_query InsertSnapshot (insert_snapshot c nm)) (\<lambda>snapshotId.
     await (insert_nodes c snapshotId ns) (\<lambda>answered.
       case answered of
         Some r \<Rightarrow> return r
       | None \<Rightarrow> await (pool_query COMMIT commit_tx) (\<lambda>_. return (Json (saved_json snapshotId)))))
     (after_delete c nm w)"
proof -
  let ?w1 = "w\<lparr>log := log w @ [Query BEGIN], tx := Some (db w)\<rparr>"
  let ?w2 = "?w1\<lparr>log := log ?w1 @ [Query SelectSnapshotId]\<rparr>"
  have b: "pool_query BEGIN begin_tx w = (Inr (), ?w1)"
    using assms by (simp add: pool_query_def begin_tx_def)
  have s: "pool_query SelectSnapshotId (select_snapshot_id (param_text c nm)) ?w1
      = (Inr (snapshot_ids (db w) (param_text c nm)), ?w2)"
    using assms by (simp add: pool_query_def select_snapshot_id_def)
  have up2: "db_up ?w2" using assms by simp
  have d: "(if snapshot_ids (db w) (param_text c nm) \<noteq> [] then
            await (pool_query DeleteSnapshotNodes
                (delete_snapshot_nodes (hd (snapshot_ids (db w) (param_text c nm)))))
              (\<lambda>_. pool_query DeleteSnapshot
                (delete_snapshot (hd (snapshot_ids (db w) (param_text c nm)))))
          else return ()) ?w2 = (Inr (), after_delete c nm w)"
    unfolding delete_existing_up[OF up2]
    by (cases "snapshot_ids (db w) (param_text c nm)")
       (simp_all add: after_delete_def without_existing_def)
  show ?thesis
    unfolding save_try_def
    apply (subst await_def) apply (simp only: b prod.case sum.case)
    apply (subst await_def) apply (simp only: s prod.case sum.case)
    apply (subst await_def) apply (simp only: d prod.case sum.case)
    done
qed

lemma insert_node_Inr:
  assumes "db_up w"
    and "pool_query InsertSnapshotNode (insert_snapshot_node c vx vy va sid) w = (Inr u, w1)"
  shows "\<exists>row. db w1 = (db w)\<lparr>snapshot_nodes := snapshot_nodes (db w) @ [row]\<rparr>
     \<and> tx w1 = tx w \<and> db_up w1 \<and> snapshots_id_seq w1 = snapshots_id_seq w
     \<and> int4 c vx = Some (nd_x row) \<and> int4 c vy = Some (nd_y row)
     \<and> varchar c 42 va = Some (nd_address row) \<and> nd_snapshot_id row = Some sid"
  using assms
  by (auto simp: pool_query_def insert_snapshot_node_def refused_int4_def Let_def
      split: option.splits if_splits)

lemma insert_nodes_done:
  assumes "db_up w" and "insert_nodes c sid ns w = (Inr None, w')"
  shows "\<exists>rows. db w' = (db w)\<lparr>snapshot_nodes := snapshot_nodes (db w) @ rows\<rparr>
     \<and> tx w' = tx w \<and> db_up w' \<and> snapshots_id_seq w' = snapshots_id_seq w
     \<and> map stored_values rows = map (node_values c) ns
     \<and> list_all (\<lambda>r. nd_snapshot_id r = Some sid) rows"
  using assms
proof (induction ns arbitrary: w)
  case Nil
  then show ?case by (intro exI[of _ "[]"]) simp
next
  case (Cons node rest)
  from Cons.prems(2) obtain vx vy va where np: "node_properties node = Inr (vx, vy, va)"
    by (cases "node_properties node") auto
  from Cons.prems(2) np have def: "\<not> (vx = JUndefined \<or> vy = JUndefined \<or> va = JUndefined)"
    by (auto simp: await_def return_def split: prod.splits sum.splits)
  obtain q w1 where ins:
    "pool_query InsertSnapshotNode (insert_snapshot_node c vx vy va sid) w = (q, w1)"
    by fastforce
  with Cons.prems(2) np def obtain u where q: "q = Inr u"
    by (cases q) auto
  with Cons.prems(2) np def ins have rec: "insert_nodes c sid rest w1 = (Inr None, w')" by simp
  from insert_node_Inr[OF Cons.prems(1) ins[unfolded q]] obtain row where
    row: "db w1 = (db w)\<lparr>snapshot_nodes := snapshot_nodes (db w) @ [row]\<rparr>"
      "tx w1 = tx w" "db_up w1" "snapshots_id_seq w1 = snapshots_id_seq w"
      "int4 c vx = Some (nd_x row)" "int4 c vy = Some (nd_y row)"
      "varchar c 42 va = Some (nd_address row)" "nd_snapshot_id row = Some sid"
    by blast
  from Cons.IH[OF row(3) rec] obtain rows where
    rows: "db w' = (db w1)\<lparr>snapshot_nodes := snapshot_nodes (db w1) @ rows\<rparr>"
      "tx w' = tx w1" "db_up w'" "snapshots_id_seq w' = snapshots_id_seq w1"
      "map stored_values rows = map (node_values c) rest"
      "list_all (\<lambda>r. nd_snapshot_id r = Some sid) rows"
    by blast
  have v: "stored_values row = node_values c node"
    using np row(5-7) by (simp add: stored_values_def node_values_def)
  show ?case
    apply (rule exI[of _ "row # rows"])
    using row rows v by simp
qed

lemma insert_nodes_accepted:
  assumes "db_up w"
    and "list_all (\<lambda>n. nd_node_id n < snapshot_nodes_node_id_seq w) (snapshot_nodes (db w))"
    and "sid \<in> set (map sn_id (snapshots (db w)))"
    and "accepted_until_lacking c ns"
  shows "\<exists>w'. insert_nodes c sid ns w
     = (Inr (Some (Status 400 ''Each node must have x, y, and address properties'')), w')"
  using assms
proof (induction ns arbitrary: w)
  case Nil
  then show ?case by simp
next
  case (Cons node rest)
  show ?case
  proof (cases "lacks_property node")
    case True
    then obtain vx vy va where "node_properties node = Inr (vx, vy, va)"
      "vx = JUndefined \<or> vy = JUndefined \<or> va = JUndefined"
      by (auto simp: lacks_property_def split: sum.splits)
    with Cons.prems(1) show ?thesis
      by (auto simp: await_def pool_query_def rollback_tx_def return_def Let_def
          split: option.splits)
  next
    case False
    with Cons.prems(4) have nv: "node_values c node \<noteq> None" and rest: "accepted_until_lacking c rest"
      by auto
    from nv obtain vx vy va px py pa where np: "node_properties node = Inr (vx, vy, va)"
      and cv: "int4 c vx = Some px" "int4 c vy = Some py" "varchar c 42 va = Some pa"
      by (auto simp: node_values_def split: sum.splits option.splits)
    from False np have def: "\<not> (vx = JUndefined \<or> vy = JUndefined \<or> va = JUndefined)"
      by (simp add: lacks_property_def)
    let ?i = "snapshot_nodes_node_id_seq w"
    let ?row = "\<lparr>nd_node_id = ?i, nd_x = px, nd_y = py, nd_address = pa, nd_snapshot_id = Some sid\<rparr>"
    let ?w1 = "w\<lparr>log := log w @ [Query InsertSnapshotNode], snapshot_nodes_node_id_seq := ?i + 1,
       db := (db w)\<lparr>snapshot_nodes := snapshot_nodes (db w) @ [?row]\<rparr>\<rparr>"
    have fresh: "?i \<notin> set (map nd_node_id (snapshot_nodes (db w)))"
      using Cons.prems(2) by (auto simp: list_all_iff)
    have ins: "pool_query InsertSnapshotNode (insert_snapshot_node c vx vy va sid) w = (Inr (), ?w1)"
      using Cons.prems(1,3) cv fresh
      by (simp add: pool_query_def insert_snapshot_node_def refused_int4_def Let_def)
    have 1: "db_up ?w1" using Cons.prems(1) by simp
    have 2: "list_all (\<lambda>n. nd_node_id n < snapshot_nodes_node_id_seq ?w1) (snapshot_nodes (db ?w1))"
      using Cons.prems(2) by (auto simp: list_all_iff)
    have 3: "sid \<in> set (map sn_id (snapshots (db ?w1)))" using Cons.prems(3) by simp
    from Cons.IH[OF 1 2 3 rest] obtain w' where
      "insert_nodes c sid rest ?w1
        = (Inr (Some (Status 400 ''Each node must have x, y, and address properties'')), w')"
      by blast
    with np def ins show ?thesis by simp
  qed
qed

lemma without_existing_subsets:
  "set (snapshots (without_existing key d)) \<subseteq> set (snapshots d)"
  "set (snapshot_nodes (without_existing key d)) \<subseteq> set (snapshot_nodes d)"
  by (auto simp: without_existing_def split: list.splits)

lemma save_try_accepted:
  assumes "db_up w" "tx w = None" "sequences_ahead w" "varchar c 255 nm = Some s"
    and "accepted_until_lacking c ns"
  shows "\<exists>w'. save_try c nm ns w
     = (Inr (Status 400 ''Each node must have x, y, and address properties''), w')"
proof -
  let ?w3 = "after_delete c nm w"
  let ?d1 = "without_existing (param_text c nm) (db w)"
  let ?i = "snapshots_id_seq w"
  let ?w4 = "?w3\<lparr>log := log ?w3 @ [Query InsertSnapshot], snapshots_id_seq := ?i + 1,
     db := ?d1\<lparr>snapshots := snapshots ?d1 @ [\<lparr>sn_id = ?i, sn_name = s\<rparr>]\<rparr>\<rparr>"
  have up3: "db_up ?w3" using assms(1) by (simp add: after_delete_def)
  have fresh: "?i \<notin> set (map sn_id (snapshots ?d1))"
    using assms(3) without_existing_subsets(1)[of "param_text c nm" "db w"]
    by (auto simp: sequences_ahead_def list_all_iff)
  have ins: "pool_query InsertSnapshot (insert_snapshot c nm) ?w3 = (Inr ?i, ?w4)"
    using up3 assms(4) fresh
    by (simp add: pool_query_def insert_snapshot_def Let_def after_delete_def)
  have 1: "db_up ?w4" using assms(1) by (simp add: after_delete_def)
  have 2: "list_all (\<lambda>n. nd_node_id n < snapshot_nodes_node_id_seq ?w4) (snapshot_nodes (db ?w4))"
    using assms(3) without_existing_subsets(2)[of "param_text c nm" "db w"]
    by (auto simp: sequences_ahead_def list_all_iff after_delete_def)
  have 3: "?i \<in> set (map sn_id (snapshots (db ?w4)))" by simp
  from insert_nodes_accepted[OF 1 2 3 assms(5)] obtain w' where
    loop: "insert_nodes c ?i ns ?w4
      = (Inr (Some (Status 400 ''Each node must have x, y, and address properties'')), w')"
    by blast
  show ?thesis
    unfolding save_try_up[OF assms(1,2)]
    apply (subst await_def) apply (simp only: ins prod.case sum.case)
    apply (subst await_def) apply (simp only: loop prod.case sum.case option.case return_def)
    apply (rule exI[of _ w'])
    apply (rule refl)
    done
qed

lemma node_properties_error: "node_properties node = Inl e \<Longrightarrow> e = TypeError"
  by (cases node) (simp_all add: node_properties_def)

lemma insert_node_Inl:
  "db_up w \<Longrightarrow> pool_query InsertSnapshotNode (insert_snapshot_node c vx vy va sid) w = (Inl e, w1)
    \<Longrightarrow> e = DbRejected"
  by (auto simp: pool_query_def insert_snapshot_node_def refused_int4_def Let_def
      split: option.splits if_splits)

lemma insert_nodes_error:
  assumes "db_up w" and "insert_nodes c sid ns w = (Inl e, w')"
  shows "e = DbRejected \<or> e = TypeError"
  using assms
proof (induction ns arbitrary: w)
  case Nil
  then show ?case by simp
next
  case (Cons node rest)
  show ?case
  proof (cases "node_properties node")
    case (Inl e')
    with Cons.prems(2) node_properties_error[OF Inl] show ?thesis by simp
  next
    case (Inr p)
    obtain vx vy va where p: "p = (vx, vy, va)" by (cases p) auto
    show ?thesis
    proof (cases "vx = JUndefined \<or> vy = JUndefined \<or> va = JUndefined")
      case True
      with Cons.prems Inr p show ?thesis
        by (auto simp: await_def pool_query_def rollback_tx_def return_def Let_def
            split: option.splits)
    next
      case False
      obtain q w1 where ins:
        "pool_query InsertSnapshotNode (insert_snapshot_node c vx vy va sid) w = (q, w1)"
        by fastforce
      show ?thesis
      proof (cases q)
        case (Inl e')
        with Cons.prems(2) Inr p False ins have "e = e'" by simp
        with insert_node_Inl[OF Cons.prems(1) ins[unfolded Inl]] show ?thesis by simp
      next
        case (Inr u)
        with Cons.prems(2) \<open>node_properties node = Inr p\<close> p False ins
        have rec: "insert_nodes c sid rest w1 = (Inl e, w')" by simp
        from insert_node_Inr[OF Cons.prems(1) ins[unfolded Inr]] have "db_up w1" by blast
        from Cons.IH[OF this rec] show ?thesis .
      qed
    qed
  qed
qed

lemma insert_nodes_answered:
  assumes "db_up w" and "insert_nodes c sid ns w = (Inr (Some r), w')"
  shows "accepted_until_lacking c ns"
  using assms
proof (induction ns arbitrary: w)
  case Nil
  then show ?case by simp
next
  case (Cons node rest)
  from Cons.prems(2) obtain vx vy va where np: "node_properties node = Inr (vx, vy, va)"
    by (cases "node_properties node") auto
  show ?case
  proof (cases "vx = JUndefined \<or> vy = JUndefined \<or> va = JUndefined")
    case True
    with np have "lacks_property node" by (simp add: lacks_property_def)
    then show ?thesis by simp
  next
    case False
    with np have nl: "\<not> lacks_property node" by (simp add: lacks_property_def)
    obtain q w1 where ins:
      "pool_query InsertSnapshotNode (insert_snapshot_node c vx vy va sid) w = (q, w1)"
      by fastforce
    with Cons.prems(2) np False obtain u where q: "q = Inr u" by (cases q) auto
    with Cons.prems(2) np False ins have rec: "insert_nodes c sid rest w1 = (Inr (Some r), w')"
      by simp
    from insert_node_Inr[OF Cons.prems(1) ins[unfolded q]] obtain row :: node_row where
      row: "db_up w1" "int4 c vx = Some (nd_x row)" "int4 c vy = Some (nd_y row)"
        "varchar c 42 va = Some (nd_address row)"
      by blast
    have nv: "node_values c node \<noteq> None" using np row(2-4) by (simp add: node_values_def)
    from Cons.IH[OF row(1) rec] nl nv show ?thesis by simp
  qed
qed

lemma insert_snapshot_outcome:
  assumes "db_up w" and "pool_query InsertSnapshot (insert_snapshot c nm) w = (q, w1)"
  shows "q = Inl DbRejected \<or> ((\<exists>sid. q = Inr sid) \<and> varchar c 255 nm \<noteq> None \<and> db_up w1)"
  using assms
  by (auto simp: pool_query_def insert_snapshot_def Let_def split: option.splits if_splits)

lemma save_try_outcome:
  assumes "db_up w" "tx w = None" and "save_try c nm ns w = (q, w')"
  shows "(\<exists>e. q = Inl e \<and> (e = DbRejected \<or> e = TypeError))
     \<or> (\<exists>b. q = Inr (Json b))
     \<or> ((\<exists>r. q = Inr r) \<and> varchar c 255 nm \<noteq> None \<and> accepted_until_lacking c ns)"
proof -
  have up3: "db_up (after_delete c nm w)" using assms(1) by (simp add: after_delete_def)
  from assms(3)[unfolded save_try_up[OF assms(1,2)]] show ?thesis
  proof (cases rule: awaitE)
    case (rejected e)
    with insert_snapshot_outcome[OF up3 rejected(1)] show ?thesis by auto
  next
    case (resolved sid w4)
    with insert_snapshot_outcome[OF up3 resolved(1)]
    have v: "varchar c 255 nm \<noteq> None" and up4: "db_up w4" by auto
    from resolved(2) show ?thesis
    proof (cases rule: awaitE)
      case (rejected e)
      with insert_nodes_error[OF up4 rejected(1)] show ?thesis by auto
    next
      case (resolved answered w5)
      show ?thesis
      proof (cases answered)
        case None
        from insert_nodes_done[OF up4 resolved(1)[unfolded None]] have "db_up w5" by blast
        with resolved(2) None show ?thesis
          by (auto simp: await_def pool_query_def commit_tx_def return_def)
      next
        case (Some r)
        from insert_nodes_answered[OF up4 resolved(1)[unfolded Some]]
        have "accepted_until_lacking c ns" .
        with resolved(2) Some v show ?thesis by (auto simp: return_def)
      qed
    qed
  qed
qed

text \<open>
  C2, as amended. Take a reachable database with no transaction open and a request with
  a truthy name and a node list that contains an element lacking \<open>x\<close>, \<open>y\<close> or
  \<open>address\<close>. The save leaves every table as it was and no transaction open, so that
  reading any snapshot name answers as before the call. The response is the 400
  validation error or a 500 raised by a rejected statement or by reading a property of
  \<open>null\<close>. It is the 400 whenever the sequences are ahead of the stored ids, the name is
  accepted and every node before the first lacking one is accepted by the database; it
  is such a 500 whenever the name is not accepted or some node before the first lacking
  one is not.
\<close>

theorem save_snapshot_rolls_back:
  assumes "db_up w" "tx w = None" "truthy nm" "list_ex lacks_property ns"
    and "save_snapshot c nm (JArr ns) w = (r, w')"
  shows "db w' = db w \<and> tx w' = None
     \<and> (\<forall>name. fst (read_snapshot name w') = fst (read_snapshot name w))
     \<and> (r = Status 400 ''Each node must have x, y, and address properties''
          \<or> r = Error500 DbRejected \<or> r = Error500 TypeError)
     \<and> (sequences_ahead w \<and> varchar c 255 nm \<noteq> None \<and> accepted_until_lacking c ns
          \<longrightarrow> r = Status 400 ''Each node must have x, y, and address properties'')
     \<and> (varchar c 255 nm = None \<or> \<not> accepted_until_lacking c ns
          \<longrightarrow> r = Error500 DbRejected \<or> r = Error500 TypeError)"
proof -
  obtain q w1 where t: "save_try c nm ns w = (q, w1)" by fastforce
  let ?msg = "''Each node must have x, y, and address properties''"
  let ?acc = "varchar c 255 nm \<noteq> None \<and> accepted_until_lacking c ns"
  from save_try_cases[OF assms(1,2) t] assms(4)
  have two: "(\<exists>e. q = Inl e \<and> in_tx (db w) w1)
      \<or> (q = Inr (Status 400 ?msg) \<and> db w1 = db w \<and> tx w1 = None \<and> db_up w1)"
    by simp
  note out = save_try_outcome[OF assms(1,2) t]
  have main: "db w' = db w \<and> tx w' = None \<and> db_up w'
     \<and> ((r = Status 400 ?msg \<and> ?acc) \<or> r = Error500 DbRejected \<or> r = Error500 TypeError)
     \<and> ((\<exists>w2. save_try c nm ns w = (Inr (Status 400 ?msg), w2)) \<longrightarrow> r = Status 400 ?msg)"
    using two
  proof (elim disjE exE conjE)
    fix e assume thrown: "q = Inl e" "in_tx (db w) w1"
    obtain u w2 where rb: "pool_query ROLLBACK rollback_tx w1 = (u, w2)" by fastforce
    from rollback_in_tx[OF thrown(2) rb] have "u = Inr ()" "db w2 = db w" "tx w2 = None" "db_up w2"
      by auto
    moreover from out thrown(1) have "e = DbRejected \<or> e = TypeError" by simp
    ultimately show ?thesis
      using assms(3,5) t thrown(1) rb by (auto simp: save_snapshot_def)
  next
    assume answered: "q = Inr (Status 400 ?msg)" "db w1 = db w" "tx w1 = None" "db_up w1"
    from out answered(1) have "?acc" by simp
    with answered assms(3,5) t show ?thesis by (auto simp: save_snapshot_def)
  qed
  then have rows: "db w' = db w" and up: "db_up w' = db_up w" using assms(1) by auto
  have reads: "\<forall>name. fst (read_snapshot name w') = fst (read_snapshot name w)"
    using read_snapshot_same_rows[OF rows up] by blast
  have cond: "sequences_ahead w \<and> varchar c 255 nm \<noteq> None \<and> accepted_until_lacking c ns
          \<longrightarrow> r = Status 400 ?msg"
  proof
    assume h: "sequences_ahead w \<and> varchar c 255 nm \<noteq> None \<and> accepted_until_lacking c ns"
    then obtain s where "varchar c 255 nm = Some s" by auto
    from save_try_accepted[OF assms(1,2) _ this] h main show "r = Status 400 ?msg" by blast
  qed
  have either: "r = Status 400 ?msg \<or> r = Error500 DbRejected \<or> r = Error500 TypeError"
    using main by blast
  have refused: "varchar c 255 nm = None \<or> \<not> accepted_until_lacking c ns
          \<longrightarrow> r = Error500 DbRejected \<or> r = Error500 TypeError"
    using main by blast
  show ?thesis
    apply (intro conjI)
         apply (rule rows)
        apply (rule main[THEN conjunct2, THEN conjunct1])
       apply (rule reads)
      apply (rule either)
     apply (rule cond)
    apply (rule refused)
    done
qed

lemma ledger_world_idle: "db_up ledger_world" "tx ledger_world = None"
  by (simp_all add: ledger_world_def)

lemma no_x_node_lacks: "lacks_property no_x_node"
  by (simp add: lacks_property_def no_x_node_def node_properties_def)

lemma save_null_x_node:
  "fst (save_snapshot pg_strict (JStr ''layout'') (JArr [null_x_node, no_x_node]) ledger_world)
     = Error500 DbRejected"
proof -
  have "save_try pg_strict (JStr ''layout'') [null_x_node, no_x_node] ledger_world
      = (Inl DbRejected,
         ledger_world\<lparr>db := without_existing ''layout'' ledger_rows, tx := Some ledger_rows,
           snapshots_id_seq := 4, snapshot_nodes_node_id_seq := 4,
           db := (without_existing ''layout'' ledger_rows)\<lparr>snapshots :=
             [\<lparr>sn_id = 2, sn_name = ''blank''\<rparr>, \<lparr>sn_id = 3, sn_name = ''layout''\<rparr>]\<rparr>,
           log := [Query BEGIN, Query SelectSnapshotId, Query DeleteSnapshotNodes,
             Query DeleteSnapshot, Query InsertSnapshot, Query InsertSnapshotNode]\<rparr>)"
    unfolding save_try_up[OF ledger_world_idle]
    by (simp add: await_def pool_query_def insert_snapshot_def insert_snapshot_node_def
        refused_int4_def after_delete_def without_existing_def snapshot_ids_def param_text_def
        varchar_def ascii_text_def int4_def Let_def node_properties_def null_x_node_def
        no_x_node_def ledger_world_def ledger_rows_def pg_strict_def)
  then show ?thesis
    by (simp add: save_snapshot_def pool_query_def rollback_tx_def ledger_world_def)
qed

text \<open>
  Against C2 as stated: a list whose first node has \<open>x: null\<close> and whose second node has
  no \<open>x\<close> is answered 500, not 400: the insert of the first node is rejected by the
  \<open>NOT NULL\<close> column before the loop reaches the node that lacks the property.
\<close>

theorem save_snapshot_null_before_missing:
  "db_up ledger_world \<and> tx ledger_world = None \<and> truthy (JStr ''layout'')
   \<and> lacks_property no_x_node
   \<and> fst (save_snapshot pg_strict (JStr ''layout'') (JArr [null_x_node, no_x_node]) ledger_world)
       = Error500 DbRejected"
  by (simp add: ledger_world_idle no_x_node_lacks save_null_x_node)

theorem save_snapshot_rolls_back_witness:
  "db_up ledger_world \<and> tx ledger_world = None \<and> truthy (JStr ''layout'')
   \<and> list_ex lacks_property [full_node, no_x_node]
   \<and> sequences_ahead ledger_world \<and> varchar pg_strict 255 (JStr ''layout'') \<noteq> None
   \<and> accepted_until_lacking pg_strict [full_node, no_x_node]
   \<and> fst (save_snapshot pg_strict (JStr ''layout'') (JArr [full_node, no_x_node]) ledger_world)
       = Status 400 ''Each node must have x, y, and address properties''
   \<and> db (snd (save_snapshot pg_strict (JStr ''layout'') (JArr [full_node, no_x_node]) ledger_world))
       = db ledger_world
   \<and> fst (read_snapshot ''layout''
         (snd (save_snapshot pg_strict (JStr ''layout'') (JArr [full_node, no_x_node]) ledger_world)))
       = fst (read_snapshot ''layout'' ledger_world)
   \<and> list_ex lacks_property [null_x_node, no_x_node]
   \<and> accepted_until_lacking pg_strict [null_x_node, no_x_node] = False
   \<and> fst (save_snapshot pg_strict (JStr ''layout'') (JArr [null_x_node, no_x_node]) ledger_world)
       = Error500 DbRejected
   \<and> db (snd (save_snapshot pg_strict (JStr ''layout'') (JArr [null_x_node, no_x_node])
         ledger_world)) = db ledger_world"
proof -
  have l: "list_ex lacks_property [full_node, no_x_node]" by (simp add: no_x_node_lacks)
  have l2: "list_ex lacks_property [null_x_node, no_x_node]" by (simp add: no_x_node_lacks)
  have f: "\<not> lacks_property full_node"
    by (simp add: lacks_property_def full_node_def node_properties_def)
  have f2: "\<not> lacks_property null_x_node"
    by (simp add: lacks_property_def null_x_node_def node_properties_def)
  have a: "sequences_ahead ledger_world"
    by (simp add: sequences_ahead_def ledger_world_def ledger_rows_def)
  have v: "varchar pg_strict 255 (JStr ''layout'') \<noteq> None"
    by (simp add: varchar_def ascii_text_def)
  have n: "node_values pg_strict full_node \<noteq> None"
    by (simp add: node_values_def node_properties_def full_node_def int4_def varchar_def
        ascii_text_def)
  have n2: "node_values pg_strict null_x_node = None"
    by (simp add: node_values_def node_properties_def null_x_node_def int4_def)
  have u: "accepted_until_lacking pg_strict [full_node, no_x_node]"
    using f n no_x_node_lacks by simp
  have u2: "accepted_until_lacking pg_strict [null_x_node, no_x_node] = False"
    using f2 n2 by simp
  have t: "truthy (JStr ''layout'')" by simp
  note A = save_snapshot_rolls_back[OF ledger_world_idle t l surjective_pairing, of pg_strict]
  note B = save_snapshot_rolls_back[OF ledger_world_idle t l2 surjective_pairing, of pg_strict]
  from A B l l2 a v u u2 ledger_world_idle save_null_x_node
  show ?thesis by simp
qed

lemma insert_snapshot_Inr:
  assumes "db_up w"
    and "pool_query InsertSnapshot (insert_snapshot c nm) w = (Inr sid, w1)"
  shows "\<exists>s. varchar c 255 nm = Some s \<and> sid = snapshots_id_seq w
     \<and> sid \<notin> set (map sn_id (snapshots (db w)))
     \<and> db w1 = (db w)\<lparr>snapshots := snapshots (db w) @ [\<lparr>sn_id = sid, sn_name = s\<rparr>]\<rparr>
     \<and> tx w1 = tx w \<and> db_up w1 \<and> snapshots_id_seq w1 = sid + 1"
  using assms
  by (auto simp: pool_query_def insert_snapshot_def Let_def split: option.splits if_splits)

lemma save_snapshot_Json:
  assumes "db_up w" "tx w = None" "save_snapshot c nm (JArr ns) w = (Json b, w')"
  shows "\<exists>s rows. varchar c 255 nm = Some s \<and> b = saved_json (snapshots_id_seq w)
     \<and> snapshots_id_seq w \<notin> set (map sn_id (snapshots (without_existing (param_text c nm) (db w))))
     \<and> db w' = (without_existing (param_text c nm) (db w))\<lparr>
          snapshots := snapshots (without_existing (param_text c nm) (db w))
             @ [\<lparr>sn_id = snapshots_id_seq w, sn_name = s\<rparr>],
          snapshot_nodes := snapshot_nodes (without_existing (param_text c nm) (db w)) @ rows\<rparr>
     \<and> map stored_values rows = map (node_values c) ns
     \<and> list_all (\<lambda>r. nd_snapshot_id r = Some (snapshots_id_seq w)) rows
     \<and> tx w' = None \<and> db_up w' \<and> snapshots_id_seq w' = snapshots_id_seq w + 1"
proof -
  let ?d1 = "without_existing (param_text c nm) (db w)"
  let ?w3 = "after_delete c nm w"
  have t: "save_try c nm ns w = (Inr (Json b), w')"
    using assms(3)
    by (auto simp: save_snapshot_def split: if_splits prod.splits sum.splits)
  have up3: "db_up ?w3" and tx3: "tx ?w3 = Some (db w)" and db3: "db ?w3 = ?d1"
    and sq3: "snapshots_id_seq ?w3 = snapshots_id_seq w"
    using assms(1) by (simp_all add: after_delete_def)
  from t[unfolded save_try_up[OF assms(1,2)]] show ?thesis
  proof (cases rule: awaitE)
    case (resolved sid w4)
    from insert_snapshot_Inr[OF up3 resolved(1)] obtain s where
      s: "varchar c 255 nm = Some s" "sid = snapshots_id_seq w"
        "sid \<notin> set (map sn_id (snapshots ?d1))"
        "db w4 = ?d1\<lparr>snapshots := snapshots ?d1 @ [\<lparr>sn_id = sid, sn_name = s\<rparr>]\<rparr>"
        "tx w4 = Some (db w)" "db_up w4" "snapshots_id_seq w4 = sid + 1"
      using tx3 db3 sq3 by auto
    have t4: "in_tx (db w) w4" using s(5,6) by (simp add: in_tx_def)
    from resolved(2) show ?thesis
    proof (cases rule: awaitE)
      case (resolved answered w5)
      from insert_nodes_in_tx[OF t4 resolved(1)] resolved(2)
      have none: "answered = None" by (cases answered) (auto simp: return_def)
      from insert_nodes_done[OF s(6) resolved(1)[unfolded none]] obtain rows where
        rows: "db w5 = (db w4)\<lparr>snapshot_nodes := snapshot_nodes (db w4) @ rows\<rparr>"
          "tx w5 = tx w4" "db_up w5" "snapshots_id_seq w5 = snapshots_id_seq w4"
          "map stored_values rows = map (node_values c) ns"
          "list_all (\<lambda>r. nd_snapshot_id r = Some sid) rows"
        by blast
      from resolved(2) none rows(3) have fin: "b = saved_json sid" "db w' = db w5" "tx w' = None"
        "db_up w'" "snapshots_id_seq w' = snapshots_id_seq w5"
        by (auto simp: await_def pool_query_def commit_tx_def return_def)
      show ?thesis
        apply (rule exI[of _ s])
        apply (rule exI[of _ rows])
        using s rows fin by simp
    qed simp
  qed simp
qed

lemma without_existing_unnamed:
  assumes "length (snapshot_ids d key) \<le> 1"
  shows "snapshot_ids (without_existing key d) key = []"
proof (cases "filter (\<lambda>r. sn_name r = key) (snapshots d)")
  case Nil
  then show ?thesis by (simp add: without_existing_def snapshot_ids_def)
next
  case (Cons r rest)
  with assms have rest: "rest = []" by (simp add: snapshot_ids_def)
  have "\<And>r'. r' \<in> set (snapshots d) \<Longrightarrow> sn_name r' = key \<Longrightarrow> r' = r"
  proof -
    fix r' assume "r' \<in> set (snapshots d)" "sn_name r' = key"
    then have "r' \<in> set (filter (\<lambda>r. sn_name r = key) (snapshots d))" by simp
    with Cons rest show "r' = r" by simp
  qed
  then have "filter (\<lambda>x. sn_name x = key) (filter (\<lambda>r'. sn_id r' \<noteq> sn_id r) (snapshots d)) = []"
    by (auto simp: filter_empty_conv)
  with Cons show ?thesis by (simp add: without_existing_def snapshot_ids_def)
qed

lemma without_existing_references:
  assumes "references_ok d"
  shows "references_ok (without_existing key d)"
proof (cases "snapshot_ids d key")
  case Nil
  with assms show ?thesis by (simp add: without_existing_def)
next
  case (Cons sid others)
  with assms show ?thesis
    by (auto simp: without_existing_def references_ok_def list_all_iff split: option.splits)
qed

lemma unreferenced:
  assumes "references_ok d" "j \<notin> set (map sn_id (snapshots d))"
  shows "filter (\<lambda>n. nd_snapshot_id n = Some j) (snapshot_nodes d) = []"
    and "filter (\<lambda>n. nd_snapshot_id n \<noteq> Some j) (snapshot_nodes d) = snapshot_nodes d"
  using assms
  by (auto simp: references_ok_def list_all_iff filter_empty_conv filter_id_conv
      split: option.splits)

lemma saved_shape:
  fixes d :: tables
  assumes un: "snapshot_ids d key = []" and ref: "references_ok d"
    and fresh: "i \<notin> set (map sn_id (snapshots d))"
    and rows: "list_all (\<lambda>r. nd_snapshot_id r = Some i) rows"
  defines "D \<equiv> d\<lparr>snapshots := snapshots d @ [\<lparr>sn_id = i, sn_name = key\<rparr>],
                 snapshot_nodes := snapshot_nodes d @ rows\<rparr>"
  shows "snapshot_ids D key = [i]" and "nodes_of D i = rows" and "nodes_under D key = rows"
    and "without_existing key D = d"
    and "j \<noteq> i \<Longrightarrow> j \<notin> set (map sn_id (snapshots d)) \<Longrightarrow> nodes_of D j = []"
proof -
  have r1: "filter (\<lambda>n. nd_snapshot_id n = Some i) rows = rows"
    and r2: "filter (\<lambda>n. nd_snapshot_id n \<noteq> Some i) rows = []"
    using rows by (auto simp: list_all_iff filter_id_conv filter_empty_conv)
  have s1: "filter (\<lambda>r. sn_id r \<noteq> i) (snapshots d) = snapshots d"
    using fresh by (auto simp: filter_id_conv)
  show ids: "snapshot_ids D key = [i]"
    using un by (simp add: D_def snapshot_ids_def)
  show "nodes_of D i = rows"
    by (simp add: D_def nodes_of_def unreferenced(1)[OF ref fresh] r1)
  show "nodes_under D key = rows"
    unfolding nodes_under_def ids
    by (simp add: D_def unreferenced(1)[OF ref fresh] r1)
  show "without_existing key D = d"
    unfolding without_existing_def ids
    by (simp add: D_def unreferenced(2)[OF ref fresh] r2 s1)
  show "nodes_of D j = []" if "j \<noteq> i" "j \<notin> set (map sn_id (snapshots d))"
  proof -
    have "filter (\<lambda>n. nd_snapshot_id n = Some j) rows = []"
      using rows that(1) by (auto simp: list_all_iff filter_empty_conv)
    then show ?thesis
      by (simp add: D_def nodes_of_def unreferenced(1)[OF ref that(2)])
  qed
qed

text \<open>
  C1, as amended. Start from a reachable database with no transaction open, in which
  node rows refer only to existing snapshots and at most one snapshot row carries the
  name, and take a name that is stored as it is looked up. If two saves under the name
  succeed one directly after the other, with node lists \<open>ns1\<close> and \<open>ns2\<close>, then the two
  calls return different ids; after the first exactly its nodes are under its id; after
  the second exactly one snapshot row carries the name, the new one; the row of the first
  call is gone and no node row refers to it; and the node rows under the name are exactly
  those of \<open>ns2\<close>, in order, with the values the database stored for them.
\<close>

theorem save_snapshot_replaces:
  assumes "db_up w" "tx w = None" "references_ok (db w)"
    and "length (snapshot_ids (db w) (param_text c nm)) \<le> 1"
    and "varchar c 255 nm = Some (param_text c nm)"
    and "save_snapshot c nm (JArr ns1) w = (Json b1, w1)"
    and "save_snapshot c nm (JArr ns2) w1 = (Json b2, w2)"
  shows "\<exists>id1 id2. b1 = saved_json id1 \<and> b2 = saved_json id2 \<and> id1 \<noteq> id2
     \<and> snapshot_ids (db w1) (param_text c nm) = [id1]
     \<and> map stored_values (nodes_of (db w1) id1) = map (node_values c) ns1
     \<and> snapshot_ids (db w2) (param_text c nm) = [id2]
     \<and> map stored_values (nodes_under (db w2) (param_text c nm)) = map (node_values c) ns2
     \<and> nodes_under (db w2) (param_text c nm) = nodes_of (db w2) id2
     \<and> id1 \<notin> set (map sn_id (snapshots (db w2)))
     \<and> nodes_of (db w2) id1 = []
     \<and> tx w2 = None"
proof -
  let ?key = "param_text c nm"
  let ?d = "without_existing ?key (db w)"
  let ?id1 = "snapshots_id_seq w"
  let ?id2 = "snapshots_id_seq w + 1"
  have un: "snapshot_ids ?d ?key = []" by (rule without_existing_unnamed[OF assms(4)])
  have ref: "references_ok ?d" by (rule without_existing_references[OF assms(3)])
  from save_snapshot_Json[OF assms(1,2,6)] assms(5) obtain rows1 where
    one: "b1 = saved_json ?id1" "?id1 \<notin> set (map sn_id (snapshots ?d))"
      "db w1 = ?d\<lparr>snapshots := snapshots ?d @ [\<lparr>sn_id = ?id1, sn_name = ?key\<rparr>],
                  snapshot_nodes := snapshot_nodes ?d @ rows1\<rparr>"
      "map stored_values rows1 = map (node_values c) ns1"
      "list_all (\<lambda>r. nd_snapshot_id r = Some ?id1) rows1"
      "tx w1 = None" "db_up w1" "snapshots_id_seq w1 = ?id2"
    by auto
  note sh1 = saved_shape[OF un ref one(2) one(5), folded one(3)]
  from save_snapshot_Json[OF one(7) one(6) assms(7)] assms(5) obtain rows2 where
    two: "b2 = saved_json ?id2" "?id2 \<notin> set (map sn_id (snapshots ?d))"
      "db w2 = ?d\<lparr>snapshots := snapshots ?d @ [\<lparr>sn_id = ?id2, sn_name = ?key\<rparr>],
                  snapshot_nodes := snapshot_nodes ?d @ rows2\<rparr>"
      "map stored_values rows2 = map (node_values c) ns2"
      "list_all (\<lambda>r. nd_snapshot_id r = Some ?id2) rows2"
      "tx w2 = None"
    unfolding sh1(4) one(8) by auto
  note sh2 = saved_shape[OF un ref two(2) two(5), folded two(3)]
  have gone: "?id1 \<notin> set (map sn_id (snapshots (db w2)))"
    using one(2) by (simp add: two(3))
  have none1: "nodes_of (db w2) ?id1 = []"
    by (rule sh2(5)[OF _ one(2)]) simp
  show ?thesis
    apply (rule exI[of _ ?id1])
    apply (rule exI[of _ ?id2])
    using one(1,4) two(1,4,6) sh1(1,2) sh2(1,2,3) gone none1 by simp
qed

lemmas save_eval = save_snapshot_def save_try_def await_def pool_query_def begin_tx_def
  select_snapshot_id_def snapshot_ids_def delete_snapshot_nodes_def delete_snapshot_def
  insert_snapshot_def insert_snapshot_node_def refused_int4_def commit_tx_def rollback_tx_def return_def Let_def
  varchar_def ascii_text_def int4_def node_properties_def param_text_def

lemma save_layout_once:
  "save_snapshot pg_strict (JStr ''layout'') (JArr [full_node]) ledger_world
     = (Json (saved_json 3), saved_once)"
  by (simp add: save_eval full_node_def ledger_world_def ledger_rows_def pg_strict_def
      saved_once_def)

lemma save_layout_twice:
  "save_snapshot pg_strict (JStr ''layout'') (JArr [other_node]) saved_once
     = (Json (saved_json 4), saved_twice)"
  by (simp add: save_eval other_node_def ledger_world_def ledger_rows_def pg_strict_def
      saved_once_def saved_twice_def)

theorem save_snapshot_replaces_witness:
  "db_up ledger_world \<and> tx ledger_world = None \<and> references_ok (db ledger_world)
   \<and> length (snapshot_ids (db ledger_world) ''layout'') \<le> 1
   \<and> varchar pg_strict 255 (JStr ''layout'') = Some ''layout''
   \<and> save_snapshot pg_strict (JStr ''layout'') (JArr [full_node]) ledger_world
        = (Json (saved_json 3), saved_once)
   \<and> save_snapshot pg_strict (JStr ''layout'') (JArr [other_node]) saved_once
        = (Json (saved_json 4), saved_twice)
   \<and> snapshot_ids (db saved_twice) ''layout'' = [4]
   \<and> map stored_values (nodes_under (db saved_twice) ''layout'') = [Some (7, 8, ''0xD'')]
   \<and> nodes_of (db saved_twice) 3 = []"
proof -
  have k: "param_text pg_strict (JStr ''layout'') = ''layout''" by (simp add: param_text_def)
  have r: "references_ok (db ledger_world)"
    by (simp add: references_ok_def ledger_world_def ledger_rows_def)
  have u: "length (snapshot_ids (db ledger_world) (param_text pg_strict (JStr ''layout''))) \<le> 1"
    by (simp add: snapshot_ids_def ledger_world_def ledger_rows_def param_text_def)
  have v: "varchar pg_strict 255 (JStr ''layout'') = Some (param_text pg_strict (JStr ''layout''))"
    by (simp add: varchar_def ascii_text_def param_text_def)
  have n: "map (node_values pg_strict) [other_node] = [Some (7, 8, ''0xD'')]"
    by (simp add: node_values_def node_properties_def other_node_def int4_def varchar_def
        ascii_text_def)
  have inj: "saved_json i = saved_json j \<Longrightarrow> i = j" for i j by (simp add: saved_json_def)
  note T = save_snapshot_replaces[OF ledger_world_idle r u v save_layout_once save_layout_twice,
      unfolded k n]
  have goal: "snapshot_ids (db saved_twice) ''layout'' = [4]
     \<and> map stored_values (nodes_under (db saved_twice) ''layout'') = [Some (7, 8, ''0xD'')]
     \<and> nodes_of (db saved_twice) 3 = []"
    using T by (elim exE conjE) (simp add: saved_json_def)
  show ?thesis
    apply (intro conjI)
             apply (rule ledger_world_idle(1))
            apply (rule ledger_world_idle(2))
           apply (rule r)
          apply (rule u[unfolded k])
         apply (rule v[unfolded k])
        apply (rule save_layout_once)
       apply (rule save_layout_twice)
      apply (rule goal[THEN conjunct1])
     apply (rule goal[THEN conjunct2, THEN conjunct1])
    apply (rule goal[THEN conjunct2, THEN conjunct2])
    done
qed

lemma save_dup_once:
  "save_snapshot pg_strict (JStr ''dup'') (JArr [full_node]) dup_world
     = (Json (saved_json 3), dup_once)"
  by (simp add: save_eval refused_int4_def full_node_def dup_world_def dup_once_def
      fresh_world_def no_rows_def pg_strict_def)

lemma save_dup_twice:
  "save_snapshot pg_strict (JStr ''dup'') (JArr [other_node]) dup_once
     = (Json (saved_json 4), dup_twice)"
  by (simp add: save_eval refused_int4_def other_node_def dup_once_def dup_twice_def
      fresh_world_def no_rows_def pg_strict_def)

text \<open>
  Against C1 as stated: nothing keeps two snapshot rows from carrying one name, and the
  handler deletes only the first row its lookup returns. From a state with two rows
  named \<open>dup\<close>, both saves succeed (ids 3 and 4); afterwards two rows carry the name and
  the nodes under it are those of the first save together with those of the second, and
  a read of the name returns the snapshot and the node of the first save.
\<close>

theorem save_snapshot_twice_two_rows:
  "db_up dup_world \<and> tx dup_world = None \<and> references_ok (db dup_world)
   \<and> varchar pg_strict 255 (JStr ''dup'') = Some ''dup''
   \<and> save_snapshot pg_strict (JStr ''dup'') (JArr [full_node]) dup_world
        = (Json (saved_json 3), dup_once)
   \<and> save_snapshot pg_strict (JStr ''dup'') (JArr [other_node]) dup_once
        = (Json (saved_json 4), dup_twice)
   \<and> snapshot_ids (db dup_twice) ''dup'' = [3, 4]
   \<and> map stored_values (nodes_under (db dup_twice) ''dup'')
        = [Some (5, 6, ''0xC''), Some (7, 8, ''0xD'')]
   \<and> map (node_values pg_strict) [other_node] = [Some (7, 8, ''0xD'')]
   \<and> fst (read_snapshot ''dup'' dup_twice)
        = Json (snapshot_json ''dup'' 3
            [JObj [(''node_id'', JNum 1), (''x'', JNum 5), (''y'', JNum 6),
               (''address'', JStr ''0xC'')]] [])"
proof -
  have i: "db_up dup_world" "tx dup_world = None" "references_ok (db dup_world)"
    by (simp_all add: dup_world_def fresh_world_def no_rows_def references_ok_def)
  have v: "varchar pg_strict 255 (JStr ''dup'') = Some ''dup''"
    by (simp add: varchar_def ascii_text_def)
  have s: "snapshot_ids (db dup_twice) ''dup'' = [3, 4]"
    by (simp add: snapshot_ids_def dup_twice_def fresh_world_def no_rows_def)
  have n: "map stored_values (nodes_under (db dup_twice) ''dup'')
        = [Some (5, 6, ''0xC''), Some (7, 8, ''0xD'')]"
    by (simp add: nodes_under_def snapshot_ids_def stored_values_def dup_twice_def
        fresh_world_def no_rows_def)
  have o: "map (node_values pg_strict) [other_node] = [Some (7, 8, ''0xD'')]"
    by (simp add: node_values_def node_properties_def other_node_def int4_def varchar_def
        ascii_text_def)
  have up: "db_up dup_twice" by (simp add: dup_twice_def fresh_world_def)
  have r: "fst (read_snapshot ''dup'' dup_twice)
        = Json (snapshot_json ''dup'' 3
            [JObj [(''node_id'', JNum 1), (''x'', JNum 5), (''y'', JNum 6),
               (''address'', JStr ''0xC'')]] [])"
    unfolding read_snapshot_up[OF up]
    by (simp add: snapshot_ids_def nodes_of_def normal_calls_def
        delegate_calls_def node_json_def dup_twice_def fresh_world_def no_rows_def)
  show ?thesis
    apply (intro conjI)
             apply (rule i(1))
            apply (rule i(2))
           apply (rule i(3))
          apply (rule v)
         apply (rule save_dup_once)
        apply (rule save_dup_twice)
       apply (rule s)
      apply (rule n)
     apply (rule o)
    apply (rule r)
    done
qed

section \<open>Further properties of saving and reading\<close>

text \<open>
  A save on a reachable database with no transaction open ends with no transaction
  open, and unless it answers with the new snapshot id it leaves every table as it was,
  whatever the body of the request.
\<close>

theorem save_snapshot_all_or_nothing:
  assumes "db_up w" "tx w = None" and "save_snapshot c nm nodes w = (r, w')"
  shows "tx w' = None \<and> ((\<exists>sid. r = Json (saved_json sid)) \<or> db w' = db w)"
proof (cases "\<not> truthy nm \<or> \<not> isArray nodes")
  case True
  with assms show ?thesis by (auto simp: save_snapshot_def)
next
  case False
  obtain q w1 where t: "save_try c nm (elements nodes) w = (q, w1)" by fastforce
  let ?msg = "''Each node must have x, y, and address properties''"
  from save_try_cases[OF assms(1,2) t]
  show ?thesis
  proof (elim disjE exE conjE)
    fix e assume thrown: "q = Inl e" "in_tx (db w) w1"
    obtain u w2 where rb: "pool_query ROLLBACK rollback_tx w1 = (u, w2)" by fastforce
    from rollback_in_tx[OF thrown(2) rb] have "u = Inr ()" "db w2 = db w" "tx w2 = None"
      by auto
    with assms(3) False t thrown(1) rb show ?thesis by (auto simp: save_snapshot_def)
  next
    assume "q = Inr (Status 400 ?msg)" "db w1 = db w" "tx w1 = None"
    with assms(3) False t show ?thesis by (auto simp: save_snapshot_def)
  next
    fix body assume j: "q = Inr (Json body)" "tx w1 = None"
    from False have n: "nodes = JArr (elements nodes)" by (cases nodes) auto
    from assms(3) False t j have r: "r = Json body" "w' = w1" by (auto simp: save_snapshot_def)
    from save_snapshot_Json[OF assms(1,2), of c nm "elements nodes" body w'] assms(3) n r
    have "\<exists>sid. body = saved_json sid" by auto
    with r j show ?thesis by auto
  qed
qed

theorem save_snapshot_all_or_nothing_witness:
  "db_up ledger_world \<and> tx ledger_world = None
   \<and> tx (snd (save_snapshot pg_strict (JStr ''layout'') (JArr [null_x_node]) ledger_world)) = None
   \<and> fst (save_snapshot pg_strict (JStr ''layout'') (JArr [null_x_node]) ledger_world)
        = Error500 DbRejected
   \<and> db (snd (save_snapshot pg_strict (JStr ''layout'') (JArr [null_x_node]) ledger_world))
        = db ledger_world"
proof -
  have f: "fst (save_snapshot pg_strict (JStr ''layout'') (JArr [null_x_node]) ledger_world)
        = Error500 DbRejected"
    by (simp add: save_eval null_x_node_def ledger_world_def ledger_rows_def pg_strict_def)
  from save_snapshot_all_or_nothing[OF ledger_world_idle surjective_pairing,
      of pg_strict "JStr ''layout''" "JArr [null_x_node]"] f ledger_world_idle
  show ?thesis by simp
qed

text \<open>
  Reading a snapshot right after it was saved returns the id the save returned and, in
  order, one node for each node of the request with the values the database stored; its
  traces are the ledger's groups between the addresses of these nodes.
\<close>

theorem read_after_save:
  assumes "db_up w" "tx w = None" "references_ok (db w)"
    and "length (snapshot_ids (db w) (param_text c nm)) \<le> 1"
    and "varchar c 255 nm = Some (param_text c nm)"
    and "save_snapshot c nm (JArr ns) w = (Json b, w1)"
  shows "\<exists>sid rows es. b = saved_json sid
     \<and> fst (read_snapshot (param_text c nm) w1)
          = Json (snapshot_json (param_text c nm) sid (map node_json rows) es)
     \<and> map stored_values rows = map (node_values c) ns
     \<and> set es = snapshot_edges (db w1) (nd_address ` set rows)"
proof -
  let ?key = "param_text c nm"
  let ?d = "without_existing ?key (db w)"
  let ?sid = "snapshots_id_seq w"
  have un: "snapshot_ids ?d ?key = []" by (rule without_existing_unnamed[OF assms(4)])
  have ref: "references_ok ?d" by (rule without_existing_references[OF assms(3)])
  from save_snapshot_Json[OF assms(1,2,6)] assms(5) obtain rows where
    one: "b = saved_json ?sid" "?sid \<notin> set (map sn_id (snapshots ?d))"
      "db w1 = ?d\<lparr>snapshots := snapshots ?d @ [\<lparr>sn_id = ?sid, sn_name = ?key\<rparr>],
                  snapshot_nodes := snapshot_nodes ?d @ rows\<rparr>"
      "map stored_values rows = map (node_values c) ns"
      "list_all (\<lambda>r. nd_snapshot_id r = Some ?sid) rows"
      "db_up w1"
    by auto
  note sh = saved_shape[OF un ref one(2) one(5), folded one(3)]
  let ?es = "if rows = [] then []
     else map normal_edge (normal_calls (db w1) (map nd_address rows))
        @ map delegate_edge (delegate_calls (db w1) (map nd_address rows))"
  have rd: "fst (read_snapshot ?key w1) = Json (snapshot_json ?key ?sid (map node_json rows) ?es)"
    by (simp add: read_snapshot_up[OF one(6)] sh(1,2))
  have es: "set ?es = snapshot_edges (db w1) (nd_address ` set rows)"
  proof (cases "rows = []")
    case True
    then show ?thesis by (simp add: snapshot_edges_def)
  next
    case False
    then show ?thesis using set_edges[of "db w1" "map nd_address rows"] by simp
  qed
  show ?thesis
    apply (rule exI[of _ ?sid])
    apply (rule exI[of _ rows])
    apply (rule exI[of _ ?es])
    apply (intro conjI)
       apply (rule one(1))
      apply (rule rd)
     apply (rule one(4))
    apply (rule es)
    done
qed

theorem read_after_save_witness:
  "db_up ledger_world \<and> tx ledger_world = None \<and> references_ok (db ledger_world)
   \<and> length (snapshot_ids (db ledger_world) ''layout'') \<le> 1
   \<and> varchar pg_strict 255 (JStr ''layout'') = Some ''layout''
   \<and> save_snapshot pg_strict (JStr ''layout'') (JArr [full_node]) ledger_world
        = (Json (saved_json 3), saved_once)
   \<and> (\<exists>rows es. fst (read_snapshot ''layout'' saved_once)
          = Json (snapshot_json ''layout'' 3 (map node_json rows) es)
        \<and> map stored_values rows = [Some (5, 6, ''0xC'')])"
proof -
  have k: "param_text pg_strict (JStr ''layout'') = ''layout''" by (simp add: param_text_def)
  have r: "references_ok (db ledger_world)"
    by (simp add: references_ok_def ledger_world_def ledger_rows_def)
  have u: "length (snapshot_ids (db ledger_world) (param_text pg_strict (JStr ''layout''))) \<le> 1"
    by (simp add: snapshot_ids_def ledger_world_def ledger_rows_def param_text_def)
  have v: "varchar pg_strict 255 (JStr ''layout'') = Some (param_text pg_strict (JStr ''layout''))"
    by (simp add: varchar_def ascii_text_def param_text_def)
  have n: "map (node_values pg_strict) [full_node] = [Some (5, 6, ''0xC'')]"
    by (simp add: node_values_def node_properties_def full_node_def int4_def varchar_def
        ascii_text_def)
  note T = read_after_save[OF ledger_world_idle r u v save_layout_once, unfolded k n]
  have goal: "\<exists>rows es. fst (read_snapshot ''layout'' saved_once)
          = Json (snapshot_json ''layout'' 3 (map node_json rows) es)
        \<and> map stored_values rows = [Some (5, 6, ''0xC'')]"
    using T by (elim exE conjE) (simp add: saved_json_def, metis)
  show ?thesis
    apply (intro conjI)
          apply (rule ledger_world_idle(1))
         apply (rule ledger_world_idle(2))
        apply (rule r)
       apply (rule u[unfolded k])
      apply (rule v[unfolded k])
     apply (rule save_layout_once)
    apply (rule goal)
    done
qed

end
